theory Spec2Isabelle
  imports Complex_Main "HOL-Library.Multiset"
begin

section \<open>Data model\<close>

text \<open>
  The GPX calculator works on slices of \<^verbatim>\<open>TrackPoint\<close>. A \<^verbatim>\<open>float64\<close> field
  of a point holds a finite number, a \<^typ>\<open>real\<close>; a slice index is a \<^typ>\<open>nat\<close>; a
  \<^verbatim>\<open>time.Time\<close> is an instant, counted from the zero value of the type.
  The per-day variant of the program carries the \<^verbatim>\<open>Time\<close> field; the whole-track
  variant has the same functions over points without it.

  The loops of calculateCumulativeAscent and of the smoothers are modelled in exact
  arithmetic first: what they compute when no operation rounds. The section on float64
  arithmetic makes the rounding of every operation explicit; calculateCumulativeAscent64
  and haversineDistance2D are the functions with that rounding, and the score conversion
  uses the 64-bit \<^verbatim>\<open>int\<close>.
\<close>

record Name =
  Space :: string
  Local :: string

type_synonym Time = int

record TrackPoint =
  XMLName :: Name
  Latitude :: real
  Longitude :: real
  Elevation :: real
  Time :: Time

text \<open>The zero value that \<^verbatim>\<open>make([]TrackPoint, n)\<close> fills a fresh slice with.\<close>

definition zeroTrackPoint :: TrackPoint where
  "zeroTrackPoint =
     \<lparr>XMLName = \<lparr>Space = [], Local = []\<rparr>, Latitude = 0, Longitude = 0, Elevation = 0, Time = 0\<rparr>"

section \<open>float64 arithmetic\<close>

text \<open>
  A finite \<^verbatim>\<open>float64\<close> is a real number with a significand of 53 bits. Every
  arithmetic operation of Go computes the exact result and rounds it to the nearest such
  number, a tie going to the even significand. \<open>rnd64\<close> is that rounding, for results
  that are neither subnormal nor beyond the largest \<^verbatim>\<open>float64\<close> (sums and differences
  of \<^verbatim>\<open>float64\<close> values in the subnormal range are exact in any case).
\<close>

definition roundHalfEven :: "real \<Rightarrow> int" where
  "roundHalfEven q =
     (let f = \<lfloor>q\<rfloor>; r = q - of_int f
      in if r < 1 / 2 then f else if r > 1 / 2 then f + 1 else if even f then f else f + 1)"

definition ulp64 :: "real \<Rightarrow> real" where
  "ulp64 x = 2 powr (of_int (\<lfloor>log 2 \<bar>x\<bar>\<rfloor> - 52))"

definition rnd64 :: "real \<Rightarrow> real" where
  "rnd64 x = (if x = 0 then 0 else ulp64 x * of_int (roundHalfEven (x / ulp64 x)))"

text \<open>
  Addition, subtraction and division of finite values whose result does not overflow.
\<close>

definition fadd64 :: "real \<Rightarrow> real \<Rightarrow> real" where
  "fadd64 x y = rnd64 (x + y)"

definition fsub64 :: "real \<Rightarrow> real \<Rightarrow> real" where
  "fsub64 x y = rnd64 (x - y)"

definition fdiv64 :: "real \<Rightarrow> real \<Rightarrow> real" where
  "fdiv64 x y = rnd64 (x / y)"

text \<open>
  Where a result can overflow or be undefined, a \<^verbatim>\<open>float64\<close> is a finite number or
  \<open>None\<close>, which stands for the values that are not numbers of their own: NaN and the
  two infinities. The operations below propagate \<open>None\<close>, as Go's do for NaN, and as
  they do for an infinity in the places haversineDistance2D uses them (a sum, difference
  or product with an infinity, an infinity divided by a finite constant).
\<close>

type_synonym float64 = "real option"

definition maxFloat64 :: real where
  "maxFloat64 = (2 ^ 53 - 1) * 2 ^ 971"

definition fin64 :: "real \<Rightarrow> float64" where
  "fin64 x = (let r = rnd64 x in if \<bar>r\<bar> \<le> maxFloat64 then Some r else None)"

definition addF :: "float64 \<Rightarrow> float64 \<Rightarrow> float64" where
  "addF a b = (case (a, b) of (Some x, Some y) \<Rightarrow> fin64 (x + y) | _ \<Rightarrow> None)"

definition subF :: "float64 \<Rightarrow> float64 \<Rightarrow> float64" where
  "subF a b = (case (a, b) of (Some x, Some y) \<Rightarrow> fin64 (x - y) | _ \<Rightarrow> None)"

definition mulF :: "float64 \<Rightarrow> float64 \<Rightarrow> float64" where
  "mulF a b = (case (a, b) of (Some x, Some y) \<Rightarrow> fin64 (x * y) | _ \<Rightarrow> None)"

definition divF :: "float64 \<Rightarrow> real \<Rightarrow> float64" where
  "divF a c = (case a of Some x \<Rightarrow> fin64 (x / c) | None \<Rightarrow> None)"

text \<open>
  Go's \<^verbatim>\<open>==\<close> on two results: NaN is equal to nothing, not even to itself.
\<close>

definition floatEq :: "float64 \<Rightarrow> float64 \<Rightarrow> bool" where
  "floatEq a b = (case (a, b) of (Some x, Some y) \<Rightarrow> x = y | _ \<Rightarrow> False)"

section \<open>calculateCumulativeAscent\<close>

text \<open>
  The loop \<^verbatim>\<open>for i := 1; i < len(points); i++\<close> with its three variables
  \<^verbatim>\<open>totalAscent\<close>, \<^verbatim>\<open>climb\<close> and \<^verbatim>\<open>prevEle\<close> as the state, in exact
  arithmetic.
\<close>

function ascentLoop ::
  "real \<Rightarrow> TrackPoint list \<Rightarrow> nat \<Rightarrow> real \<times> real \<times> real \<Rightarrow> real \<times> real \<times> real" where
  "ascentLoop threshold points i (totalAscent, climb, prevEle) =
     (if i < length points then
        let currEle = Elevation (points ! i);
            diff = currEle - prevEle
        in if diff > 0 then ascentLoop threshold points (i + 1) (totalAscent, climb + diff, currEle)
           else ascentLoop threshold points (i + 1)
                  (if climb \<ge> threshold then totalAscent + climb else totalAscent, 0, currEle)
      else (totalAscent, climb, prevEle))"
  by pat_completeness auto
termination
  by (relation "measure (\<lambda>(threshold, points, i, st). length points - i)") auto

declare ascentLoop.simps [simp del]

definition calculateCumulativeAscent :: "TrackPoint list \<Rightarrow> real \<Rightarrow> real" where
  "calculateCumulativeAscent points threshold =
     (if length points < 2 then 0
      else case ascentLoop threshold points 1 (0, 0, Elevation (points ! 0)) of
             (totalAscent, climb, prevEle) \<Rightarrow>
               if climb \<ge> threshold then totalAscent + climb else totalAscent)"

subsection \<open>The hysteresis filter as the specification words it\<close>

text \<open>The consecutive elevation deltas of a sequence of elevations.\<close>

fun deltas :: "real list \<Rightarrow> real list" where
  "deltas (a # b # es) = (b - a) # deltas (b # es)"
| "deltas es = []"

text \<open>
  The scan over the deltas with the running total and the climb accumulator: a positive
  delta is added to the climb; any other delta commits the climb when it has reached the
  threshold and resets it.
\<close>

fun hysteresisScan :: "real \<Rightarrow> real list \<Rightarrow> real \<times> real \<Rightarrow> real \<times> real" where
  "hysteresisScan T [] st = st"
| "hysteresisScan T (d # ds) (tot, climb) =
     (if d > 0 then hysteresisScan T ds (tot, climb + d)
      else hysteresisScan T ds (if climb \<ge> T then tot + climb else tot, 0))"

text \<open>The flush after the last point.\<close>

fun flush :: "real \<Rightarrow> real \<times> real \<Rightarrow> real" where
  "flush T (tot, climb) = (if climb \<ge> T then tot + climb else tot)"

text \<open>The naive ascent: the sum of all positive consecutive deltas.\<close>

definition naiveAscent :: "real list \<Rightarrow> real" where
  "naiveAscent es = sum_list (map (\<lambda>d. max 0 d) (deltas es))"



text \<open>A point at a given elevation, for the examples.\<close>

definition elevationPoint :: "real \<Rightarrow> TrackPoint" where
  "elevationPoint e = zeroTrackPoint\<lparr>Elevation := e\<rparr>"

section \<open>calculateCumulativeAscent in float64\<close>

text \<open>
  The same loop with every \<^verbatim>\<open>-\<close> and \<^verbatim>\<open>+=\<close> rounded to \<^verbatim>\<open>float64\<close>.
\<close>

function ascentLoop64 ::
  "real \<Rightarrow> TrackPoint list \<Rightarrow> nat \<Rightarrow> real \<times> real \<times> real \<Rightarrow> real \<times> real \<times> real" where
  "ascentLoop64 threshold points i (totalAscent, climb, prevEle) =
     (if i < length points then
        let currEle = Elevation (points ! i);
            diff = fsub64 currEle prevEle
        in if diff > 0 then
             ascentLoop64 threshold points (i + 1) (totalAscent, fadd64 climb diff, currEle)
           else ascentLoop64 threshold points (i + 1)
                  (if climb \<ge> threshold then fadd64 totalAscent climb else totalAscent, 0, currEle)
      else (totalAscent, climb, prevEle))"
  by pat_completeness auto
termination
  by (relation "measure (\<lambda>(threshold, points, i, st). length points - i)") auto

declare ascentLoop64.simps [simp del]

definition calculateCumulativeAscent64 :: "TrackPoint list \<Rightarrow> real \<Rightarrow> real" where
  "calculateCumulativeAscent64 points threshold =
     (if length points < 2 then 0
      else case ascentLoop64 threshold points 1 (0, 0, Elevation (points ! 0)) of
             (totalAscent, climb, prevEle) \<Rightarrow>
               if climb \<ge> threshold then fadd64 totalAscent climb else totalAscent)"

text \<open>
  The deltas, the scan and the flush of the hysteresis filter in \<^verbatim>\<open>float64\<close>.
\<close>

fun deltas64 :: "real list \<Rightarrow> real list" where
  "deltas64 (a # b # es) = fsub64 b a # deltas64 (b # es)"
| "deltas64 es = []"

fun hysteresisScan64 :: "real \<Rightarrow> real list \<Rightarrow> real \<times> real \<Rightarrow> real \<times> real" where
  "hysteresisScan64 T [] st = st"
| "hysteresisScan64 T (d # ds) (tot, climb) =
     (if d > 0 then hysteresisScan64 T ds (tot, fadd64 climb d)
      else hysteresisScan64 T ds (if climb \<ge> T then fadd64 tot climb else tot, 0))"

fun flush64 :: "real \<Rightarrow> real \<times> real \<Rightarrow> real" where
  "flush64 T (tot, climb) = (if climb \<ge> T then fadd64 tot climb else tot)"

text \<open>
  The filter with its gate removed: every climb is committed, whatever its size.
\<close>

fun commitAll64 :: "real list \<Rightarrow> real \<times> real \<Rightarrow> real" where
  "commitAll64 [] (tot, climb) = fadd64 tot climb"
| "commitAll64 (d # ds) (tot, climb) =
     (if d > 0 then commitAll64 ds (tot, fadd64 climb d)
      else commitAll64 ds (fadd64 tot climb, 0))"

text \<open>
  The naive sum of the positive deltas computed in \<^verbatim>\<open>float64\<close>, adding from the
  first delta to the last, and from the last to the first.
\<close>

definition naiveLeft64 :: "real list \<Rightarrow> real" where
  "naiveLeft64 es = foldl fadd64 0 (map (\<lambda>d. max 0 d) (deltas64 es))"

definition naiveRight64 :: "real list \<Rightarrow> real" where
  "naiveRight64 es = foldr fadd64 (map (\<lambda>d. max 0 d) (deltas64 es)) 0"

text \<open>
  Elevations for which no operation of the ascent loop rounds: whole numbers, small
  enough that every delta and every sum of deltas stays below \<open>2 ^ 53\<close>.
\<close>

definition wholeElevations :: "real list \<Rightarrow> bool" where
  "wholeElevations es = (\<forall>e\<in>set es. e \<in> \<int> \<and> 2 * \<bar>e\<bar> * real (length es) \<le> 2 ^ 53)"

text \<open>
  A track whose elevations are the \<^verbatim>\<open>float64\<close> values of decimal literals, for the
  examples.
\<close>

definition decimalTrack :: "real list \<Rightarrow> TrackPoint list" where
  "decimalTrack ds = map (\<lambda>d. elevationPoint (rnd64 d)) ds"

section \<open>The smoothers\<close>

text \<open>
  Both smoothers take the slice and \<^verbatim>\<open>windowSize\<close>, a Go \<^verbatim>\<open>int\<close>. The model
  uses unbounded integers: \<^verbatim>\<open>windowSize++\<close> runs only for an even value, which is
  below the largest \<^verbatim>\<open>int\<close>, and \<^verbatim>\<open>i + halfWindow\<close> stays in range since a slice
  of points is far shorter than half the range of \<^verbatim>\<open>int\<close>. For a positive
  \<^verbatim>\<open>windowSize\<close> Go's \<^verbatim>\<open>%\<close> and \<^verbatim>\<open>/\<close> agree with \<open>mod\<close> and \<open>div\<close>.
  The accumulator \<^verbatim>\<open>count\<close> of the source is \<open>cnt\<close> here.

  The inner loop \<^verbatim>\<open>for j := start; j <= end; j++\<close> of applyMovingAverage:
\<close>

function elevationWindow :: "TrackPoint list \<Rightarrow> int \<Rightarrow> int \<Rightarrow> real \<times> int \<Rightarrow> real \<times> int" where
  "elevationWindow points j end (sumElevation, cnt) =
     (if j \<le> end then
        elevationWindow points (j + 1) end (sumElevation + Elevation (points ! nat j), cnt + 1)
      else (sumElevation, cnt))"
  by pat_completeness auto
termination
  by (relation "measure (\<lambda>(points, j, end, st). nat (end + 1 - j))") auto

declare elevationWindow.simps [simp del]

text \<open>The outer loop \<^verbatim>\<open>for i := range points\<close>, writing \<^verbatim>\<open>smoothedPoints[i]\<close>.\<close>

function movingAverageLoop :: "TrackPoint list \<Rightarrow> int \<Rightarrow> nat \<Rightarrow> TrackPoint list \<Rightarrow> TrackPoint list" where
  "movingAverageLoop points halfWindow i smoothedPoints =
     (if i < length points then
        let smoothedPoints = smoothedPoints[i := points ! i];
            start = int i - halfWindow;
            start = (if start < 0 then 0 else start);
            end = int i + halfWindow;
            end = (if end \<ge> int (length points) then int (length points) - 1 else end);
            (sumElevation, cnt) = elevationWindow points start end (0, 0);
            smoothedPoints =
              smoothedPoints[i := (smoothedPoints ! i)\<lparr>Elevation := sumElevation / real_of_int cnt\<rparr>]
        in movingAverageLoop points halfWindow (i + 1) smoothedPoints
      else smoothedPoints)"
  by pat_completeness auto
termination
  by (relation "measure (\<lambda>(points, halfWindow, i, smoothedPoints). length points - i)") auto

declare movingAverageLoop.simps [simp del]

definition applyMovingAverage :: "TrackPoint list \<Rightarrow> int \<Rightarrow> TrackPoint list" where
  "applyMovingAverage points windowSize =
     (if windowSize < 1 \<or> length points = 0 then points
      else
        let windowSize = (if windowSize mod 2 = 0 then windowSize + 1 else windowSize);
            smoothedPoints = replicate (length points) zeroTrackPoint;
            halfWindow = windowSize div 2
        in movingAverageLoop points halfWindow 0 smoothedPoints)"

text \<open>The same two loops in applyLatLonSmoothing, with one sum per coordinate.\<close>

function latLonWindow ::
  "TrackPoint list \<Rightarrow> int \<Rightarrow> int \<Rightarrow> real \<times> real \<times> int \<Rightarrow> real \<times> real \<times> int" where
  "latLonWindow points j end (sumLat, sumLon, cnt) =
     (if j \<le> end then
        latLonWindow points (j + 1) end
          (sumLat + Latitude (points ! nat j), sumLon + Longitude (points ! nat j), cnt + 1)
      else (sumLat, sumLon, cnt))"
  by pat_completeness auto
termination
  by (relation "measure (\<lambda>(points, j, end, st). nat (end + 1 - j))") auto

declare latLonWindow.simps [simp del]

function latLonLoop :: "TrackPoint list \<Rightarrow> int \<Rightarrow> nat \<Rightarrow> TrackPoint list \<Rightarrow> TrackPoint list" where
  "latLonLoop points half i smoothed =
     (if i < length points then
        let start = int i - half;
            start = (if start < 0 then 0 else start);
            end = int i + half;
            end = (if end \<ge> int (length points) then int (length points) - 1 else end);
            (sumLat, sumLon, cnt) = latLonWindow points start end (0, 0, 0);
            smoothed = smoothed[i := points ! i];
            smoothed = smoothed[i := (smoothed ! i)\<lparr>Latitude := sumLat / real_of_int cnt\<rparr>];
            smoothed = smoothed[i := (smoothed ! i)\<lparr>Longitude := sumLon / real_of_int cnt\<rparr>]
        in latLonLoop points half (i + 1) smoothed
      else smoothed)"
  by pat_completeness auto
termination
  by (relation "measure (\<lambda>(points, half, i, smoothed). length points - i)") auto

declare latLonLoop.simps [simp del]

definition applyLatLonSmoothing :: "TrackPoint list \<Rightarrow> int \<Rightarrow> TrackPoint list" where
  "applyLatLonSmoothing points windowSize =
     (if windowSize < 1 \<or> length points = 0 then points
      else
        let windowSize = (if windowSize mod 2 = 0 then windowSize + 1 else windowSize);
            smoothed = replicate (length points) zeroTrackPoint;
            half = windowSize div 2
        in latLonLoop points half 0 smoothed)"

subsection \<open>The centred window mean as the specification words it\<close>

text \<open>
  The arithmetic mean of a field over the indices from max(0, i - W/2) to
  min(n - 1, i + W/2), divided by the number of indices in that clipped window.
\<close>

definition windowMean :: "(TrackPoint \<Rightarrow> real) \<Rightarrow> TrackPoint list \<Rightarrow> int \<Rightarrow> nat \<Rightarrow> real" where
  "windowMean field points W i =
     (let lo = max 0 (int i - W div 2);
          hi = min (int (length points) - 1) (int i + W div 2)
      in (\<Sum>k = lo..hi. field (points ! nat k)) / real (card {lo..hi}))"

text \<open>An even window size is incremented to the next odd one.\<close>

definition oddWindow :: "int \<Rightarrow> int" where
  "oddWindow W = (if even W then W + 1 else W)"

text \<open>A point with the given coordinates, elevation and time, for the examples.\<close>

definition trackPoint :: "real \<Rightarrow> real \<Rightarrow> real \<Rightarrow> Time \<Rightarrow> TrackPoint" where
  "trackPoint lat lon ele t =
     \<lparr>XMLName = \<lparr>Space = [], Local = ''trkpt''\<rparr>, Latitude = lat, Longitude = lon,
      Elevation = ele, Time = t\<rparr>"

text \<open>A short track for the examples.\<close>

definition exampleTrack :: "TrackPoint list" where
  "exampleTrack =
     [trackPoint 50 20 0 0, trackPoint 51 22 3 60, trackPoint 52 21 6 120, trackPoint 50 20 3 180]"

section \<open>The GOT points\<close>

text \<open>
  \<^verbatim>\<open>math.Round\<close> of Go's standard library returns the nearest integer, rounding half
  away from zero.
\<close>

definition Round :: "real \<Rightarrow> real" where
  "Round x = (if x < 0 then - of_int \<lfloor>- x + 1 / 2\<rfloor> else of_int \<lfloor>x + 1 / 2\<rfloor>)"

text \<open>
  Go's \<^verbatim>\<open>int\<close> has 64 bits on the platforms the program is built for, and its
  \<^verbatim>\<open>+\<close> wraps around.
\<close>

definition wrapInt64 :: "int \<Rightarrow> int" where
  "wrapInt64 n = (n + 2 ^ 63) mod 2 ^ 64 - 2 ^ 63"

text \<open>
  The conversion \<^verbatim>\<open>int(x)\<close> of a \<^verbatim>\<open>float64\<close> discards the fraction
  (truncation towards zero). For a value outside the range of \<^verbatim>\<open>int\<close> Go leaves the
  result to the implementation; the model takes the result of the amd64 build, the smallest
  \<^verbatim>\<open>int\<close>.
\<close>

definition intOfFloat :: "real \<Rightarrow> int" where
  "intOfFloat x =
     (let t = (if x < 0 then \<lceil>x\<rceil> else \<lfloor>x\<rfloor>)
      in if - (2 ^ 63) \<le> t \<and> t < 2 ^ 63 then t else - (2 ^ 63))"

definition calculateGOTAscent :: "real \<Rightarrow> int" where
  "calculateGOTAscent n = (let val = fdiv64 n 100.0 in intOfFloat (Round val))"

definition calculateGOTDistance :: "real \<Rightarrow> int" where
  "calculateGOTDistance n = intOfFloat (Round n)"

definition calculateDailyGOTPoints :: "int \<Rightarrow> int \<Rightarrow> int" where
  "calculateDailyGOTPoints distance ascent = wrapInt64 (distance + ascent)"

text \<open>
  The entry of the \<^verbatim>\<open>results\<close> map of \<^verbatim>\<open>main\<close> for one day, and the lines
  that the report loop prints for it: each \<^verbatim>\<open>Printf\<close> is a constructor holding the
  arguments of its format string.
\<close>

record DayResult =
  Distance :: real
  Ascent :: real

datatype Line =
  ResultLine string real real
| PointsLine string int int
| LimitLine string int
| AchievedLine string int

definition reportDay :: "string \<Rightarrow> DayResult \<Rightarrow> Line list" where
  "reportDay day r =
     (let gotDistance = calculateGOTDistance (Distance r);
          gotAscent = calculateGOTAscent (Ascent r);
          gotSum = calculateDailyGOTPoints gotDistance gotAscent
      in [ResultLine day (Distance r) (Ascent r),
          PointsLine day gotDistance gotAscent,
          if gotSum \<ge> 50 then LimitLine day 50 else AchievedLine day gotSum])"

text \<open>
  Rounding as the specification words it: \<open>n\<close> is the integer nearest to \<open>x\<close>, and on
  an exact tie it is the one away from zero.
\<close>

definition nearestAwayFromZero :: "real \<Rightarrow> int \<Rightarrow> bool" where
  "nearestAwayFromZero x n =
     (\<bar>of_int n - x\<bar> < 1 / 2 \<or> (\<bar>of_int n - x\<bar> = 1 / 2 \<and> \<bar>x\<bar> < \<bar>of_int n\<bar>))"

text \<open>
  The range of a 64-bit \<^verbatim>\<open>int\<close>, and the rounded value as an integer of any size.
\<close>

definition int64Range :: "int \<Rightarrow> bool" where
  "int64Range n = (- (2 ^ 63) \<le> n \<and> n < 2 ^ 63)"

definition roundAwayFromZero :: "real \<Rightarrow> int" where
  "roundAwayFromZero x = (if x < 0 then - \<lfloor>- x + 1 / 2\<rfloor> else \<lfloor>x + 1 / 2\<rfloor>)"

section \<open>haversineDistance2D\<close>

text \<open>
  \<^verbatim>\<open>math.Sin\<close>, \<^verbatim>\<open>math.Cos\<close>, \<^verbatim>\<open>math.Sqrt\<close> and \<^verbatim>\<open>math.Atan2\<close> belong to
  Go's standard library. The model takes them as a parameter: the four functions on finite
  arguments, returning \<^verbatim>\<open>float64\<close> values.
\<close>

record MathLib =
  Sin :: "real \<Rightarrow> real"
  Cos :: "real \<Rightarrow> real"
  Sqrt :: "real \<Rightarrow> real"
  Atan2 :: "real \<Rightarrow> real \<Rightarrow> real"

text \<open>
  On NaN the four functions return NaN, and so do \<^verbatim>\<open>math.Sin\<close> and
  \<^verbatim>\<open>math.Cos\<close> on an infinity; \<^verbatim>\<open>math.Sqrt\<close> of a negative number is NaN.
\<close>

definition sinF :: "MathLib \<Rightarrow> float64 \<Rightarrow> float64" where
  "sinF m a = map_option (Sin m) a"

definition cosF :: "MathLib \<Rightarrow> float64 \<Rightarrow> float64" where
  "cosF m a = map_option (Cos m) a"

definition sqrtF :: "MathLib \<Rightarrow> float64 \<Rightarrow> float64" where
  "sqrtF m a = (case a of Some x \<Rightarrow> if x < 0 then None else Some (Sqrt m x) | None \<Rightarrow> None)"

definition atan2F :: "MathLib \<Rightarrow> float64 \<Rightarrow> float64 \<Rightarrow> float64" where
  "atan2F m a b = (case (a, b) of (Some y, Some x) \<Rightarrow> Some (Atan2 m y x) | _ \<Rightarrow> None)"

text \<open>
  What the theorems use of the library: \<^verbatim>\<open>math.Sin\<close> is odd, \<^verbatim>\<open>math.Cos\<close>
  is bounded (by 1; the bound 2 leaves room for an implementation that errs in the last
  place), \<^verbatim>\<open>math.Sqrt\<close> is exact at 0 and 1, and \<^verbatim>\<open>math.Atan2(0, 1)\<close> is 0.
\<close>

definition goMath :: "MathLib \<Rightarrow> bool" where
  "goMath m =
     ((\<forall>x. Sin m (- x) = - Sin m x) \<and> (\<forall>x. \<bar>Cos m x\<bar> \<le> 2) \<and>
      Sqrt m 0 = 0 \<and> Sqrt m 1 = 1 \<and> Atan2 m 0 1 = 0)"

definition earthRadius :: real where
  "earthRadius = 6371.0"

text \<open>
  The constant \<^verbatim>\<open>math.Pi\<close> as a \<^verbatim>\<open>float64\<close>.
\<close>

definition pi64 :: real where
  "pi64 = 884279719003555 / 281474976710656"

definition toRadians :: "real \<Rightarrow> float64" where
  "toRadians deg = divF (mulF (Some deg) (Some pi64)) 180.0"

text \<open>
  Every operation is rounded on its own (no fused multiply-add), as in the amd64 build.
\<close>

definition haversineDistance2D :: "MathLib \<Rightarrow> TrackPoint \<Rightarrow> TrackPoint \<Rightarrow> float64" where
  "haversineDistance2D m p1 p2 =
     (let lat1 = toRadians (Latitude p1);
          lon1 = toRadians (Longitude p1);
          lat2 = toRadians (Latitude p2);
          lon2 = toRadians (Longitude p2);
          dLat = subF lat2 lat1;
          dLon = subF lon2 lon1;
          a = addF (mulF (sinF m (divF dLat 2)) (sinF m (divF dLat 2)))
                (mulF (mulF (mulF (cosF m lat1) (cosF m lat2)) (sinF m (divF dLon 2)))
                   (sinF m (divF dLon 2)));
          c = mulF (Some 2) (atan2F m (sqrtF m a) (sqrtF m (subF (Some 1) a)))
      in mulF (Some earthRadius) c)"

text \<open>
  For the examples: the library whose functions are the real functions, correctly
  rounded.
\<close>

definition atan2Real :: "real \<Rightarrow> real \<Rightarrow> real" where
  "atan2Real y x =
     (if x > 0 then arctan (y / x)
      else if x < 0 then (if y \<ge> 0 then arctan (y / x) + pi else arctan (y / x) - pi)
      else if y > 0 then pi / 2
      else if y < 0 then - pi / 2
      else 0)"

definition roundedMath :: MathLib where
  "roundedMath =
     \<lparr>Sin = (\<lambda>x. rnd64 (sin x)), Cos = (\<lambda>x. rnd64 (cos x)), Sqrt = (\<lambda>x. rnd64 (sqrt x)),
      Atan2 = (\<lambda>y x. rnd64 (atan2Real y x))\<rparr>"

section \<open>groupByDay\<close>

text \<open>
  The timezone database and the formatting of dates belong to Go's \<^verbatim>\<open>time\<close> package.
  The model takes them as the parameter \<open>format\<close>: \<open>format location t\<close> is
  \<^verbatim>\<open>t.In(location).Format("2006-01-02")\<close>, the local calendar date of the instant
  \<open>t\<close> in the given location, as text. The map \<^verbatim>\<open>grouped\<close> is a partial function
  from day keys to buckets; indexing a key that is absent gives the nil slice, to which
  \<^verbatim>\<open>append\<close> adds the point.
\<close>

fun groupByDayLoop ::
  "(Time \<Rightarrow> string) \<Rightarrow> TrackPoint list \<Rightarrow> (string \<rightharpoonup> TrackPoint list) \<Rightarrow>
   (string \<rightharpoonup> TrackPoint list)" where
  "groupByDayLoop localDate [] grouped = grouped"
| "groupByDayLoop localDate (p # points) grouped =
     (let day = localDate (Time p)
      in groupByDayLoop localDate points
           (grouped(day \<mapsto> (case grouped day of None \<Rightarrow> [] | Some bucket \<Rightarrow> bucket) @ [p])))"

definition groupByDay ::
  "('loc \<Rightarrow> Time \<Rightarrow> string) \<Rightarrow> TrackPoint list \<Rightarrow> 'loc \<Rightarrow> (string \<rightharpoonup> TrackPoint list)" where
  "groupByDay format points location = groupByDayLoop (format location) points Map.empty"

text \<open>The day key of a point: the local calendar date of its timestamp.\<close>

definition dayKey :: "('loc \<Rightarrow> Time \<Rightarrow> string) \<Rightarrow> 'loc \<Rightarrow> TrackPoint \<Rightarrow> string" where
  "dayKey format location p = format location (Time p)"

text \<open>
  For the examples: a clock that counts hours, a location that is an offset in hours, and
  a track of three points recorded around midnight.
\<close>

definition hourlyDate :: "int \<Rightarrow> Time \<Rightarrow> string" where
  "hourlyDate offset t =
     (if (t + offset) div 24 = 0 then ''0001-01-01''
      else if (t + offset) div 24 = 1 then ''0001-01-02'' else ''later'')"

definition dayTrack :: "TrackPoint list" where
  "dayTrack = [trackPoint 50 20 100 22, trackPoint 50 20 110 23, trackPoint 50 20 105 25]"

section \<open>The loop of calculateCumulativeAscent is the scan over the deltas\<close>

lemma ascentLoop_scan:
  "i \<le> length points \<Longrightarrow>
   (case ascentLoop T points i (tot, climb, prev) of (t, c, e) \<Rightarrow> (t, c)) =
     hysteresisScan T (deltas (prev # map Elevation (drop i points))) (tot, climb)"
proof (induction T points i "(tot, climb, prev)" arbitrary: tot climb prev
    rule: ascentLoop.induct)
  case (1 T points i tot climb prev)
  show ?case
  proof (cases "i < length points")
    case False
    with "1.prems" have "drop i points = []" by simp
    with False show ?thesis by (simp add: ascentLoop.simps)
  next
    case True
    then have d: "drop i points = points ! i # drop (Suc i) points"
      by (simp add: Cons_nth_drop_Suc)
    show ?thesis
    proof (cases "Elevation (points ! i) - prev > 0")
      case pos: True
      have "(case ascentLoop T points (i + 1) (tot, climb + (Elevation (points ! i) - prev),
                Elevation (points ! i)) of (t, c, e) \<Rightarrow> (t, c)) =
            hysteresisScan T (deltas (Elevation (points ! i) # map Elevation (drop (i + 1) points)))
              (tot, climb + (Elevation (points ! i) - prev))"
        using "1.hyps"(1) [OF True refl refl pos] True by simp
      with True pos d show ?thesis
        by (subst ascentLoop.simps) (simp add: Let_def)
    next
      case nonpos: False
      have "(case ascentLoop T points (i + 1) (if climb \<ge> T then tot + climb else tot, 0,
                Elevation (points ! i)) of (t, c, e) \<Rightarrow> (t, c)) =
            hysteresisScan T (deltas (Elevation (points ! i) # map Elevation (drop (i + 1) points)))
              (if climb \<ge> T then tot + climb else tot, 0)"
        using "1.hyps"(2) [OF True refl refl nonpos] True by simp
      with True nonpos d show ?thesis
        by (subst ascentLoop.simps) (simp add: Let_def)
    qed
  qed
qed

lemma calculateCumulativeAscent_scan:
  "calculateCumulativeAscent points T =
     (if length points < 2 then 0
      else flush T (hysteresisScan T (deltas (map Elevation points)) (0, 0)))"
proof (cases "length points < 2")
  case True
  then show ?thesis by (simp add: calculateCumulativeAscent_def)
next
  case False
  then obtain p ps where ps: "points = p # ps" by (cases points) auto
  obtain t c e where loop: "ascentLoop T points 1 (0, 0, Elevation p) = (t, c, e)"
    by (cases "ascentLoop T points 1 (0, 0, Elevation p)") auto
  have "(case ascentLoop T points 1 (0, 0, Elevation p) of (t, c, e) \<Rightarrow> (t, c)) =
          hysteresisScan T (deltas (Elevation p # map Elevation (drop 1 points))) (0, 0)"
    using False by (intro ascentLoop_scan) simp
  then have "hysteresisScan T (deltas (map Elevation points)) (0, 0) = (t, c)"
    using loop by (simp add: ps)
  with False loop show ?thesis
    by (simp add: calculateCumulativeAscent_def ps)
qed

text \<open>
  Claim C1. For every point sequence of at least two points and every threshold,
  calculateCumulativeAscent returns the total of the two-state hysteresis filter over the
  consecutive elevation deltas (a positive delta is added to the climb; a delta that is not
  positive commits the climb exactly when it has reached the threshold and resets it; the
  climb left after the last point is committed under the same test); for fewer than two
  points the result is 0.
\<close>

theorem calculateCumulativeAscent_hysteresis:
  "(2 \<le> length points \<longrightarrow>
      calculateCumulativeAscent points T =
        flush T (hysteresisScan T (deltas (map Elevation points)) (0, 0))) \<and>
   (length points < 2 \<longrightarrow> calculateCumulativeAscent points T = 0)"
  by (simp add: calculateCumulativeAscent_scan)

theorem calculateCumulativeAscent_hysteresis_witness:
  "2 \<le> length (map elevationPoint [100, 102, 101, 105]) \<and>
   calculateCumulativeAscent (map elevationPoint [100, 102, 101, 105]) 1.5 = 6 \<and>
   length [elevationPoint 7] < 2 \<and>
   calculateCumulativeAscent [elevationPoint 7] 1.5 = 0"
  using calculateCumulativeAscent_hysteresis [of "map elevationPoint [100, 102, 101, 105]" "1.5"]
    calculateCumulativeAscent_hysteresis [of "[elevationPoint 7]" "1.5"]
  by (simp add: elevationPoint_def)

section \<open>Properties of the hysteresis filter in exact arithmetic\<close>

lemma flush_scan_nonpos_threshold:
  "T \<le> 0 \<Longrightarrow> 0 \<le> climb \<Longrightarrow>
   flush T (hysteresisScan T ds (tot, climb)) = tot + climb + sum_list (map (\<lambda>d. max 0 d) ds)"
  by (induction ds arbitrary: tot climb) auto

lemma flush_scan_le_naive:
  "0 \<le> climb \<Longrightarrow>
   flush T (hysteresisScan T ds (tot, climb)) \<le> tot + climb + sum_list (map (\<lambda>d. max 0 d) ds)"
proof (induction ds arbitrary: tot climb)
  case Nil
  then show ?case by simp
next
  case (Cons d ds)
  show ?case
  proof (cases "d > 0")
    case True
    with Cons.IH [of "climb + d" tot] Cons.prems show ?thesis by simp
  next
    case False
    with Cons.IH [of 0 "if climb \<ge> T then tot + climb else tot"] Cons.prems show ?thesis
      by (simp split: if_splits)
  qed
qed

lemma naiveAscent_short: "length es < 2 \<Longrightarrow> naiveAscent es = 0"
  by (cases es rule: deltas.cases) (simp_all add: naiveAscent_def)

lemma calculateCumulativeAscent_nonpos_naive:
  "T \<le> 0 \<Longrightarrow> calculateCumulativeAscent points T = naiveAscent (map Elevation points)"
  using flush_scan_nonpos_threshold [of T 0 "deltas (map Elevation points)" 0]
  by (simp add: calculateCumulativeAscent_scan naiveAscent_short) (simp add: naiveAscent_def)

lemma calculateCumulativeAscent_le_naive:
  "calculateCumulativeAscent points T \<le> naiveAscent (map Elevation points)"
  using flush_scan_le_naive [of 0 T "deltas (map Elevation points)" 0]
  by (simp add: calculateCumulativeAscent_scan naiveAscent_short) (simp add: naiveAscent_def)

section \<open>Climbs below the threshold are discarded\<close>








section \<open>Rounding to float64\<close>

lemma roundHalfEven_of_int [simp]: "roundHalfEven (of_int n) = n"
  by (simp add: roundHalfEven_def)

lemma roundHalfEven_mono: "x \<le> y \<Longrightarrow> roundHalfEven x \<le> roundHalfEven y"
proof -
  assume xy: "x \<le> y"
  then have fl: "\<lfloor>x\<rfloor> \<le> \<lfloor>y\<rfloor>" by (rule floor_mono)
  show ?thesis
  proof (cases "\<lfloor>x\<rfloor> = \<lfloor>y\<rfloor>")
    case True
    with xy show ?thesis by (auto simp: roundHalfEven_def Let_def)
  next
    case False
    with fl have "\<lfloor>x\<rfloor> + 1 \<le> \<lfloor>y\<rfloor>" by simp
    moreover have "roundHalfEven x \<le> \<lfloor>x\<rfloor> + 1" by (simp add: roundHalfEven_def Let_def)
    moreover have "\<lfloor>y\<rfloor> \<le> roundHalfEven y" by (simp add: roundHalfEven_def Let_def)
    ultimately show ?thesis by linarith
  qed
qed

lemma roundHalfEven_minus: "roundHalfEven (- x) = - roundHalfEven x"
proof (cases "x = of_int \<lfloor>x\<rfloor>")
  case True
  then obtain n where "x = of_int n" ..
  then have "- x = of_int (- n)" by simp
  then show ?thesis using \<open>x = of_int n\<close> by (simp only: roundHalfEven_of_int)
next
  case False
  then have "\<lceil>x\<rceil> = \<lfloor>x\<rfloor> + 1" by (simp add: ceiling_altdef)
  then have fl: "\<lfloor>- x\<rfloor> = - \<lfloor>x\<rfloor> - 1" by (simp add: floor_minus)
  have fr: "- x - of_int \<lfloor>- x\<rfloor> = 1 - (x - of_int \<lfloor>x\<rfloor>)" by (simp add: fl)
  have pos: "0 < x - of_int \<lfloor>x\<rfloor>" using False by linarith
  show ?thesis
    unfolding roundHalfEven_def Let_def fr unfolding fl
    by (auto split: if_splits)
qed

lemma ulp64_pos: "0 < ulp64 x"
  by (simp add: ulp64_def)

lemma ulp64_minus [simp]: "ulp64 (- x) = ulp64 x"
  by (simp add: ulp64_def)

lemma rnd64_0 [simp]: "rnd64 0 = 0"
  by (simp add: rnd64_def)

lemma rnd64_minus: "rnd64 (- x) = - rnd64 x"
  by (simp add: rnd64_def roundHalfEven_minus)

lemma binade: "0 < x \<Longrightarrow> 2 powr (of_int \<lfloor>log 2 x\<rfloor>) \<le> x \<and> x < 2 powr (of_int \<lfloor>log 2 x\<rfloor> + 1)"
  using floor_log_eq_powr_iff [of x 2 "\<lfloor>log 2 x\<rfloor>"] by simp

lemma ulp64_eq: "0 < x \<Longrightarrow> 2 powr (of_int e) \<le> x \<Longrightarrow> x < 2 powr (of_int e + 1) \<Longrightarrow>
   ulp64 x = 2 powr (of_int e - 52)"
  using floor_log_eq_powr_iff [of x 2 e] by (simp add: ulp64_def)

lemma powr_52: "(2::real) powr (of_int e - 52) * 2 ^ 52 = 2 powr (of_int e)"
proof -
  have "(2::real) powr (of_int e - 52) * 2 powr 52 = 2 powr (of_int e)"
    unfolding powr_add [symmetric] by (rule arg_cong [where f = "\<lambda>t. 2 powr t"]) simp
  moreover have "(2::real) powr 52 = 2 ^ 52" by simp
  ultimately show ?thesis by (simp only:)
qed

lemma powr_53: "(2::real) powr (of_int e - 52) * 2 ^ 53 = 2 powr (of_int e + 1)"
proof -
  have "(2::real) powr (of_int e - 52) * 2 powr 53 = 2 powr (of_int e + 1)"
    unfolding powr_add [symmetric] by (rule arg_cong [where f = "\<lambda>t. 2 powr t"]) simp
  moreover have "(2::real) powr 53 = 2 ^ 53" by simp
  ultimately show ?thesis by (simp only:)
qed

lemma rnd64_form:
  assumes "0 < x" "2 powr (of_int e) \<le> x" "x < 2 powr (of_int e + 1)"
  shows "rnd64 x = 2 powr (of_int e - 52) * of_int (roundHalfEven (x / 2 powr (of_int e - 52)))"
    and "2 ^ 52 \<le> roundHalfEven (x / 2 powr (of_int e - 52))"
    and "roundHalfEven (x / 2 powr (of_int e - 52)) \<le> 2 ^ 53"
proof -
  let ?u = "(2::real) powr (of_int e - 52)"
  have u: "0 < ?u" by simp
  show "rnd64 x = ?u * of_int (roundHalfEven (x / ?u))"
    using assms by (simp add: rnd64_def ulp64_eq [OF assms])
  have "?u * 2 ^ 52 \<le> x" "x < ?u * 2 ^ 53"
    using assms by (simp_all only: powr_52 powr_53)
  then have lo: "of_int (2 ^ 52) \<le> x / ?u" and hi: "x / ?u \<le> of_int (2 ^ 53)"
    using u by (simp_all add: field_simps)
  from roundHalfEven_mono [OF lo] show "2 ^ 52 \<le> roundHalfEven (x / ?u)"
    by (simp only: roundHalfEven_of_int)
  from roundHalfEven_mono [OF hi] show "roundHalfEven (x / ?u) \<le> 2 ^ 53"
    by (simp only: roundHalfEven_of_int)
qed

lemma rnd64_bounds:
  assumes "0 < x" "2 powr (of_int e) \<le> x" "x < 2 powr (of_int e + 1)"
  shows "2 powr (of_int e) \<le> rnd64 x" "rnd64 x \<le> 2 powr (of_int e + 1)"
proof -
  let ?u = "(2::real) powr (of_int e - 52)"
  let ?m = "roundHalfEven (x / ?u)"
  note f = rnd64_form [OF assms]
  have u: "0 < ?u" by simp
  have "real_of_int (2 ^ 52) \<le> real_of_int ?m" using f(2) by (simp only: of_int_le_iff)
  then have "?u * 2 ^ 52 \<le> ?u * real_of_int ?m" using u by simp
  then show "2 powr (of_int e) \<le> rnd64 x" by (simp only: f(1) powr_52)
  have "real_of_int ?m \<le> real_of_int (2 ^ 53)" using f(3) by (simp only: of_int_le_iff)
  then have "?u * real_of_int ?m \<le> ?u * 2 ^ 53" using u by simp
  then show "rnd64 x \<le> 2 powr (of_int e + 1)" by (simp only: f(1) powr_53)
qed

lemma rnd64_pos: "0 < x \<Longrightarrow> 0 < rnd64 x"
proof -
  assume x: "0 < x"
  from binade [OF x] rnd64_bounds(1) [OF x, of "\<lfloor>log 2 x\<rfloor>"]
  have "2 powr (of_int \<lfloor>log 2 x\<rfloor>) \<le> rnd64 x" by simp
  moreover have "(0::real) < 2 powr (of_int \<lfloor>log 2 x\<rfloor>)" by simp
  ultimately show ?thesis by linarith
qed

lemma rnd64_mono_pos:
  assumes "0 < x" "x \<le> y"
  shows "rnd64 x \<le> rnd64 y"
proof -
  have y: "0 < y" using assms by simp
  let ?ex = "\<lfloor>log 2 x\<rfloor>" and ?ey = "\<lfloor>log 2 y\<rfloor>"
  have le: "?ex \<le> ?ey" using assms by (intro floor_mono) simp
  note bx = binade [OF assms(1)] and bY = binade [OF y]
  show ?thesis
  proof (cases "?ex = ?ey")
    case True
    let ?u = "(2::real) powr (of_int ?ex - 52)"
    have fx: "rnd64 x = ?u * of_int (roundHalfEven (x / ?u))"
      using rnd64_form(1) [OF assms(1), of ?ex] bx by simp
    have fy: "rnd64 y = ?u * of_int (roundHalfEven (y / ?u))"
      using rnd64_form(1) [OF y, of ?ey] bY True by simp
    have "x / ?u \<le> y / ?u" using assms(2) by (simp add: divide_right_mono)
    then have "roundHalfEven (x / ?u) \<le> roundHalfEven (y / ?u)" by (rule roundHalfEven_mono)
    then show ?thesis unfolding fx fy by simp
  next
    case False
    with le have "?ex + 1 \<le> ?ey" by simp
    then have "real_of_int ?ex + 1 \<le> real_of_int ?ey" by linarith
    then have "(2::real) powr (of_int ?ex + 1) \<le> 2 powr (of_int ?ey)" by simp
    moreover have "rnd64 x \<le> 2 powr (of_int ?ex + 1)"
      using rnd64_bounds(2) [OF assms(1), of ?ex] bx by simp
    moreover have "2 powr (of_int ?ey) \<le> rnd64 y"
      using rnd64_bounds(1) [OF y, of ?ey] bY by simp
    ultimately show ?thesis by linarith
  qed
qed

lemma rnd64_mono: "x \<le> y \<Longrightarrow> rnd64 x \<le> rnd64 y"
proof -
  assume xy: "x \<le> y"
  consider "0 < x" | "x = 0" | "x < 0" "y < 0" | "x < 0" "y = 0" | "x < 0" "0 < y" by linarith
  then show ?thesis
  proof cases
    case 1
    then show ?thesis using xy by (rule rnd64_mono_pos)
  next
    case 2
    then show ?thesis using xy rnd64_pos [of y] by (cases "y = 0") auto
  next
    case 3
    then have "rnd64 (- y) \<le> rnd64 (- x)" using xy by (intro rnd64_mono_pos) simp_all
    then show ?thesis by (simp add: rnd64_minus)
  next
    case 4
    then show ?thesis using rnd64_pos [of "- x"] by (simp add: rnd64_minus)
  next
    case 5
    then show ?thesis using rnd64_pos [of "- x"] rnd64_pos [of y] by (simp add: rnd64_minus)
  qed
qed

lemma rnd64_eval:
  assumes "2 powr (of_int e) \<le> \<bar>x\<bar>" "\<bar>x\<bar> < 2 powr (of_int e + 1)"
  shows "rnd64 x = 2 powr (of_int e - 52) * of_int (roundHalfEven (x / 2 powr (of_int e - 52)))"
proof -
  have "(0::real) < 2 powr (of_int e)" by simp
  with assms(1) have nz: "x \<noteq> 0" by linarith
  show ?thesis
  proof (cases "0 < x")
    case True
    with assms show ?thesis by (intro rnd64_form(1)) simp_all
  next
    case False
    with nz have neg: "0 < - x" by simp
    have "rnd64 (- x) =
            2 powr (of_int e - 52) * of_int (roundHalfEven (- x / 2 powr (of_int e - 52)))"
      using assms neg by (intro rnd64_form(1)) simp_all
    then show ?thesis
      by (simp add: rnd64_minus roundHalfEven_minus)
  qed
qed

lemma rnd64_eval_frac:
  fixes n :: nat
  assumes "2 ^ 52 \<le> \<bar>x\<bar> * 2 ^ n" "\<bar>x\<bar> * 2 ^ n < 2 ^ 53"
  shows "rnd64 x = of_int (roundHalfEven (x * 2 ^ n)) / 2 ^ n"
proof -
  have u: "(2::real) powr (of_int (52 - int n) - 52) = 1 / 2 ^ n"
    by (simp add: powr_minus powr_realpow field_simps)
  have "(2::real) powr (of_int (52 - int n)) = 2 powr (of_int (52 - int n) - 52) * 2 ^ 52"
    by (simp only: powr_52)
  then have lo: "(2::real) powr (of_int (52 - int n)) = 2 ^ 52 / 2 ^ n"
    by (simp only: u) simp
  have "(2::real) powr (of_int (52 - int n) + 1) = 2 powr (of_int (52 - int n) - 52) * 2 ^ 53"
    by (simp only: powr_53)
  then have hi: "(2::real) powr (of_int (52 - int n) + 1) = 2 ^ 53 / 2 ^ n"
    by (simp only: u) simp
  have "rnd64 x = 2 powr (of_int (52 - int n) - 52) *
          of_int (roundHalfEven (x / 2 powr (of_int (52 - int n) - 52)))"
    using assms by (intro rnd64_eval) (simp_all only: lo hi, simp_all add: field_simps)
  then show ?thesis by (simp only: u) simp
qed

lemma rnd64_eval_int:
  fixes n :: nat
  assumes "2 ^ 52 * 2 ^ n \<le> \<bar>x\<bar>" "\<bar>x\<bar> < 2 ^ 53 * 2 ^ n"
  shows "rnd64 x = of_int (roundHalfEven (x / 2 ^ n)) * 2 ^ n"
proof -
  have u: "(2::real) powr (of_int (52 + int n) - 52) = 2 ^ n"
    by (simp add: powr_realpow)
  have "(2::real) powr (of_int (52 + int n)) = 2 powr (of_int (52 + int n) - 52) * 2 ^ 52"
    by (simp only: powr_52)
  then have lo: "(2::real) powr (of_int (52 + int n)) = 2 ^ 52 * 2 ^ n"
    by (simp only: u) simp
  have "(2::real) powr (of_int (52 + int n) + 1) = 2 powr (of_int (52 + int n) - 52) * 2 ^ 53"
    by (simp only: powr_53)
  then have hi: "(2::real) powr (of_int (52 + int n) + 1) = 2 ^ 53 * 2 ^ n"
    by (simp only: u) simp
  have "rnd64 x = 2 powr (of_int (52 + int n) - 52) *
          of_int (roundHalfEven (x / 2 powr (of_int (52 + int n) - 52)))"
    using assms by (intro rnd64_eval) (simp_all only: lo hi)
  then show ?thesis by (simp only: u) simp
qed

lemma rnd64_exact_pos:
  assumes "0 < n" "n < 2 ^ 53"
  shows "rnd64 (of_int n * 2 powr (of_int k)) = of_int n * 2 powr (of_int k)"
proof -
  define x where "x = real_of_int n * 2 powr (of_int k)"
  define e where "e = \<lfloor>log 2 x\<rfloor>"
  define u where "u = (2::real) powr (of_int e - 52)"
  have x: "0 < x" using assms(1) by (simp add: x_def)
  have b: "2 powr (of_int e) \<le> x" "x < 2 powr (of_int e + 1)"
    using binade [OF x] by (simp_all add: e_def)
  have u: "0 < u" by (simp add: u_def)
  have "real_of_int n < 2 ^ 53" using assms(2) by (metis of_int_less_iff of_int_numeral of_int_power)
  then have "x < 2 ^ 53 * 2 powr (of_int k)" by (simp add: x_def)
  also have "\<dots> = 2 powr (of_int k + 53)"
  proof -
    have "(2::real) ^ 53 = 2 powr 53" by simp
    then show ?thesis by (simp only: powr_add [symmetric]) (simp add: add.commute)
  qed
  finally have "2 powr (of_int e) < 2 powr (real_of_int k + 53)" using b by linarith
  then have "real_of_int e < real_of_int k + 53" by simp
  then have "e < k + 53" by linarith
  then have j: "0 \<le> k + 52 - e" by simp
  define j where "j = nat (k + 52 - e)"
  have kj: "real_of_int k = (real_of_int e - 52) + real j" using j by (simp add: j_def)
  have "2 powr (real_of_int k) = 2 powr ((real_of_int e - 52) + real j)"
    by (rule arg_cong [where f = "\<lambda>t. 2 powr t"]) (rule kj)
  also have "\<dots> = u * 2 powr (real j)" by (simp only: powr_add u_def)
  finally have pk: "2 powr (real_of_int k) = u * 2 ^ j" by (simp add: powr_realpow)
  have "x / u = of_int (n * 2 ^ j)" using u by (simp add: x_def pk)
  then have "roundHalfEven (x / u) = n * 2 ^ j" by (simp only: roundHalfEven_of_int)
  moreover have "rnd64 x = u * of_int (roundHalfEven (x / u))"
    unfolding u_def using b by (intro rnd64_form(1) [OF x]) simp_all
  ultimately have "rnd64 x = u * of_int (n * 2 ^ j)" by simp
  then show ?thesis by (simp add: x_def pk)
qed

lemma rnd64_exact:
  assumes "\<bar>n\<bar> < 2 ^ 53"
  shows "rnd64 (of_int n * 2 powr (of_int k)) = of_int n * 2 powr (of_int k)"
proof -
  consider "n = 0" | "0 < n" | "n < 0" by linarith
  then show ?thesis
  proof cases
    case 1
    then show ?thesis by simp
  next
    case 2
    with assms show ?thesis by (intro rnd64_exact_pos) simp_all
  next
    case 3
    with assms have "rnd64 (of_int (- n) * 2 powr (of_int k)) = of_int (- n) * 2 powr (of_int k)"
      by (intro rnd64_exact_pos) simp_all
    then show ?thesis using rnd64_minus [of "of_int n * 2 powr (of_int k)"] by simp
  qed
qed

lemma rnd64_idem_pos:
  assumes "0 < x"
  shows "rnd64 (rnd64 x) = rnd64 x"
proof -
  define e where "e = \<lfloor>log 2 x\<rfloor>"
  define m where "m = roundHalfEven (x / 2 powr (of_int e - 52))"
  have b: "2 powr (of_int e) \<le> x" "x < 2 powr (of_int e + 1)"
    using binade [OF assms] by (simp_all add: e_def)
  have f: "rnd64 x = 2 powr (of_int e - 52) * of_int m" "2 ^ 52 \<le> m" "m \<le> 2 ^ 53"
    using rnd64_form [OF assms b] by (simp_all add: m_def)
  show ?thesis
  proof (cases "m = 2 ^ 53")
    case True
    have "rnd64 x = of_int 1 * 2 powr (of_int (e + 1))"
      using powr_53 [of e] by (simp add: f(1) True)
    moreover have "rnd64 (of_int 1 * 2 powr (of_int (e + 1))) = of_int 1 * 2 powr (of_int (e + 1))"
      by (rule rnd64_exact) simp
    ultimately show ?thesis by (simp only:)
  next
    case False
    with f have "\<bar>m\<bar> < 2 ^ 53" by simp
    then have "rnd64 (of_int m * 2 powr (of_int (e - 52))) = of_int m * 2 powr (of_int (e - 52))"
      by (rule rnd64_exact)
    moreover have "rnd64 x = of_int m * 2 powr (of_int (e - 52))"
      by (simp add: f(1) mult.commute)
    ultimately show ?thesis by (simp only:)
  qed
qed

lemma rnd64_idem: "rnd64 (rnd64 x) = rnd64 x"
proof -
  consider "x = 0" | "0 < x" | "x < 0" by linarith
  then show ?thesis
  proof cases
    case 1
    then show ?thesis by simp
  next
    case 2
    then show ?thesis by (rule rnd64_idem_pos)
  next
    case 3
    then have "rnd64 (rnd64 (- x)) = rnd64 (- x)" by (intro rnd64_idem_pos) simp
    then show ?thesis by (simp add: rnd64_minus)
  qed
qed

lemma rnd64_of_int:
  assumes "\<bar>n\<bar> \<le> 2 ^ 53"
  shows "rnd64 (of_int n) = of_int n"
proof (cases "\<bar>n\<bar> = 2 ^ 53")
  case False
  with assms have "\<bar>n\<bar> < 2 ^ 53" by simp
  from rnd64_exact [OF this, of 0] show ?thesis by simp
next
  case True
  then consider "n = 2 ^ 53" | "n = - (2 ^ 53)" by linarith
  then show ?thesis
  proof cases
    case 1
    have "rnd64 (of_int (2 ^ 52) * 2 powr (of_int 1)) = of_int (2 ^ 52) * 2 powr (of_int 1)"
      by (rule rnd64_exact) simp
    then show ?thesis by (simp add: 1)
  next
    case 2
    have "rnd64 (of_int (- (2 ^ 52)) * 2 powr (of_int 1)) = of_int (- (2 ^ 52)) * 2 powr (of_int 1)"
      by (rule rnd64_exact) simp
    then show ?thesis by (simp add: 2)
  qed
qed

section \<open>The float64 loop of calculateCumulativeAscent\<close>

lemma ascentLoop64_scan:
  "i \<le> length points \<Longrightarrow>
   (case ascentLoop64 T points i (tot, climb, prev) of (t, c, e) \<Rightarrow> (t, c)) =
     hysteresisScan64 T (deltas64 (prev # map Elevation (drop i points))) (tot, climb)"
proof (induction T points i "(tot, climb, prev)" arbitrary: tot climb prev
    rule: ascentLoop64.induct)
  case (1 T points i tot climb prev)
  show ?case
  proof (cases "i < length points")
    case False
    with "1.prems" have "drop i points = []" by simp
    with False show ?thesis by (simp add: ascentLoop64.simps)
  next
    case True
    then have d: "drop i points = points ! i # drop (Suc i) points"
      by (simp add: Cons_nth_drop_Suc)
    show ?thesis
    proof (cases "fsub64 (Elevation (points ! i)) prev > 0")
      case pos: True
      have "(case ascentLoop64 T points (i + 1)
                (tot, fadd64 climb (fsub64 (Elevation (points ! i)) prev),
                 Elevation (points ! i)) of (t, c, e) \<Rightarrow> (t, c)) =
            hysteresisScan64 T
              (deltas64 (Elevation (points ! i) # map Elevation (drop (i + 1) points)))
              (tot, fadd64 climb (fsub64 (Elevation (points ! i)) prev))"
        using "1.hyps"(1) [OF True refl refl pos] True by simp
      with True pos d show ?thesis
        by (subst ascentLoop64.simps) (simp add: Let_def)
    next
      case nonpos: False
      have "(case ascentLoop64 T points (i + 1)
                (if climb \<ge> T then fadd64 tot climb else tot, 0,
                 Elevation (points ! i)) of (t, c, e) \<Rightarrow> (t, c)) =
            hysteresisScan64 T
              (deltas64 (Elevation (points ! i) # map Elevation (drop (i + 1) points)))
              (if climb \<ge> T then fadd64 tot climb else tot, 0)"
        using "1.hyps"(2) [OF True refl refl nonpos] True by simp
      with True nonpos d show ?thesis
        by (subst ascentLoop64.simps) (simp add: Let_def)
    qed
  qed
qed

lemma calculateCumulativeAscent64_scan:
  "calculateCumulativeAscent64 points T =
     (if length points < 2 then 0
      else flush64 T (hysteresisScan64 T (deltas64 (map Elevation points)) (0, 0)))"
proof (cases "length points < 2")
  case True
  then show ?thesis by (simp add: calculateCumulativeAscent64_def)
next
  case False
  then obtain p ps where ps: "points = p # ps" by (cases points) auto
  obtain t c e where loop: "ascentLoop64 T points 1 (0, 0, Elevation p) = (t, c, e)"
    by (cases "ascentLoop64 T points 1 (0, 0, Elevation p)") auto
  have "(case ascentLoop64 T points 1 (0, 0, Elevation p) of (t, c, e) \<Rightarrow> (t, c)) =
          hysteresisScan64 T (deltas64 (Elevation p # map Elevation (drop 1 points))) (0, 0)"
    using False by (intro ascentLoop64_scan) simp
  then have "hysteresisScan64 T (deltas64 (map Elevation points)) (0, 0) = (t, c)"
    using loop by (simp add: ps)
  with False loop show ?thesis
    by (simp add: calculateCumulativeAscent64_def ps)
qed

lemma fadd64_nonneg: "0 \<le> x \<Longrightarrow> 0 \<le> y \<Longrightarrow> 0 \<le> fadd64 x y"
  using rnd64_mono [of 0 "x + y"] by (simp add: fadd64_def)

lemma fadd64_mono: "x \<le> x' \<Longrightarrow> fadd64 x y \<le> fadd64 x' y"
  by (simp add: fadd64_def rnd64_mono)

lemma fadd64_ge_left: "rnd64 x = x \<Longrightarrow> 0 \<le> y \<Longrightarrow> x \<le> fadd64 x y"
  using rnd64_mono [of x "x + y"] by (simp add: fadd64_def)

lemma rnd64_fadd64 [simp]: "rnd64 (fadd64 x y) = fadd64 x y"
  by (simp add: fadd64_def rnd64_idem)

lemma flush_scan64_commitAll:
  "T \<le> 0 \<Longrightarrow> 0 \<le> climb \<Longrightarrow>
   flush64 T (hysteresisScan64 T ds (tot, climb)) = commitAll64 ds (tot, climb)"
  by (induction ds arbitrary: tot climb) (auto simp: fadd64_nonneg)

lemma flush_scan64_antitone:
  "T1 \<le> T2 \<Longrightarrow> 0 \<le> climb \<Longrightarrow> t2 \<le> t1 \<Longrightarrow> rnd64 t1 = t1 \<Longrightarrow>
   flush64 T2 (hysteresisScan64 T2 ds (t2, climb)) \<le> flush64 T1 (hysteresisScan64 T1 ds (t1, climb))"
proof (induction ds arbitrary: t1 t2 climb)
  case Nil
  then show ?case
    using fadd64_mono [of t2 t1 climb] fadd64_ge_left [of t1 climb] by auto
next
  case (Cons d ds)
  show ?case
  proof (cases "d > 0")
    case True
    then show ?thesis using Cons.prems by (simp add: Cons.IH fadd64_nonneg)
  next
    case False
    have "flush64 T2 (hysteresisScan64 T2 ds (if climb \<ge> T2 then fadd64 t2 climb else t2, 0)) \<le>
          flush64 T1 (hysteresisScan64 T1 ds (if climb \<ge> T1 then fadd64 t1 climb else t1, 0))"
      using Cons.prems fadd64_mono [of t2 t1 climb] fadd64_ge_left [of t1 climb]
      by (intro Cons.IH) auto
    with False show ?thesis by simp
  qed
qed

lemma flush_scan64_nonneg:
  "0 \<le> climb \<Longrightarrow> 0 \<le> tot \<Longrightarrow> 0 \<le> flush64 T (hysteresisScan64 T ds (tot, climb))"
  by (induction ds arbitrary: tot climb) (auto simp: fadd64_nonneg)

lemma rnd64_Ints: "x \<in> \<int> \<Longrightarrow> \<bar>x\<bar> \<le> 2 ^ 53 \<Longrightarrow> rnd64 x = x"
proof -
  assume "x \<in> \<int>" and b: "\<bar>x\<bar> \<le> 2 ^ 53"
  then obtain n where n: "x = of_int n" by (auto elim: Ints_cases)
  with b have "real_of_int \<bar>n\<bar> \<le> real_of_int (2 ^ 53)" by simp
  then have "\<bar>n\<bar> \<le> 2 ^ 53" by (simp only: of_int_le_iff)
  then show ?thesis unfolding n by (rule rnd64_of_int)
qed

lemma fadd64_exact:
  "x \<in> \<int> \<Longrightarrow> y \<in> \<int> \<Longrightarrow> \<bar>x + y\<bar> \<le> 2 ^ 53 \<Longrightarrow> fadd64 x y = x + y"
  by (simp add: fadd64_def rnd64_Ints)

lemma fsub64_exact:
  "x \<in> \<int> \<Longrightarrow> y \<in> \<int> \<Longrightarrow> \<bar>x - y\<bar> \<le> 2 ^ 53 \<Longrightarrow> fsub64 x y = x - y"
  by (simp add: fsub64_def rnd64_Ints)

lemma deltas64_exact:
  "\<forall>e\<in>set es. e \<in> \<int> \<and> \<bar>e\<bar> \<le> 2 ^ 52 \<Longrightarrow> deltas64 es = deltas es"
proof (induction es rule: deltas.induct)
  case (1 a b es)
  then have "a \<in> \<int>" "b \<in> \<int>" "\<bar>a\<bar> \<le> 2 ^ 52" "\<bar>b\<bar> \<le> 2 ^ 52" by simp_all
  moreover have "(2::real) ^ 53 = 2 * 2 ^ 52" by simp
  ultimately have "\<bar>b - a\<bar> \<le> 2 ^ 53" by linarith
  with \<open>a \<in> \<int>\<close> \<open>b \<in> \<int>\<close> have "fsub64 b a = b - a" by (intro fsub64_exact)
  with 1 show ?case by simp
qed simp_all

lemma deltas_Ints: "\<forall>e\<in>set es. e \<in> \<int> \<Longrightarrow> \<forall>d\<in>set (deltas es). d \<in> \<int>"
  by (induction es rule: deltas.induct) auto

lemma sum_positive_deltas_bound:
  "\<forall>e\<in>set es. \<bar>e\<bar> \<le> B \<Longrightarrow>
   sum_list (map (\<lambda>d. max 0 d) (deltas es)) \<le> 2 * B * real (length es - 1)"
proof (induction es rule: deltas.induct)
  case (1 a b es)
  then have "\<bar>a\<bar> \<le> B" "\<bar>b\<bar> \<le> B" by simp_all
  then have m: "max 0 (b - a) \<le> 2 * B" by linarith
  have ih: "sum_list (map (\<lambda>d. max 0 d) (deltas (b # es))) \<le> 2 * B * real (length (b # es) - 1)"
    using 1 by simp
  have step: "sum_list (map (\<lambda>d. max 0 d) (deltas (a # b # es))) =
      max 0 (b - a) + sum_list (map (\<lambda>d. max 0 d) (deltas (b # es)))"
    by simp
  have len: "2 * B * real (length (a # b # es) - 1) = 2 * B + 2 * B * real (length (b # es) - 1)"
    by (simp add: algebra_simps)
  show ?case unfolding step len using m ih by linarith
qed simp_all

lemma flush_scan64_exact:
  "\<forall>d\<in>set ds. d \<in> \<int> \<Longrightarrow> tot \<in> \<int> \<Longrightarrow> climb \<in> \<int> \<Longrightarrow> 0 \<le> tot \<Longrightarrow> 0 \<le> climb \<Longrightarrow>
   tot + climb + sum_list (map (\<lambda>d. max 0 d) ds) \<le> 2 ^ 53 \<Longrightarrow>
   flush64 T (hysteresisScan64 T ds (tot, climb)) = flush T (hysteresisScan T ds (tot, climb))"
proof (induction ds arbitrary: tot climb)
  case Nil
  then have "fadd64 tot climb = tot + climb" by (intro fadd64_exact) simp_all
  then show ?case by simp
next
  case (Cons d ds)
  have rest: "0 \<le> sum_list (map (\<lambda>d. max 0 d) ds)" by (rule sum_list_nonneg) auto
  show ?case
  proof (cases "d > 0")
    case True
    with Cons.prems rest have "fadd64 climb d = climb + d" by (intro fadd64_exact) simp_all
    moreover have "flush64 T (hysteresisScan64 T ds (tot, climb + d)) =
                   flush T (hysteresisScan T ds (tot, climb + d))"
      using Cons.prems True by (intro Cons.IH) (simp_all add: add.assoc)
    ultimately show ?thesis using True by simp
  next
    case False
    with Cons.prems rest have c: "fadd64 tot climb = tot + climb" by (intro fadd64_exact) simp_all
    have "flush64 T (hysteresisScan64 T ds (if climb \<ge> T then tot + climb else tot, 0)) =
          flush T (hysteresisScan T ds (if climb \<ge> T then tot + climb else tot, 0))"
      using Cons.prems False by (intro Cons.IH) auto
    with False c show ?thesis by (cases "T \<le> climb") simp_all
  qed
qed

lemma calculateCumulativeAscent64_exact:
  assumes "wholeElevations (map Elevation points)"
  shows "calculateCumulativeAscent64 points T = calculateCumulativeAscent points T"
proof (cases "length points < 2")
  case True
  then show ?thesis
    by (simp add: calculateCumulativeAscent64_scan calculateCumulativeAscent_scan)
next
  case False
  let ?es = "map Elevation points"
  define B where "B = 2 ^ 52 / real (length points)"
  have n: "0 < real (length points)" using False by auto
  have ints: "\<forall>e\<in>set ?es. e \<in> \<int>" and bnd: "\<forall>e\<in>set ?es. \<bar>e\<bar> \<le> B"
    using assms n unfolding wholeElevations_def B_def by (auto simp: field_simps)
  have "1 \<le> real (length points)" using False by auto
  then have "B \<le> 2 ^ 52" unfolding B_def by (simp add: divide_le_eq)
  with bnd have small: "\<forall>e\<in>set ?es. e \<in> \<int> \<and> \<bar>e\<bar> \<le> 2 ^ 52" using ints by force
  have d: "deltas64 ?es = deltas ?es" using small by (rule deltas64_exact)
  have "sum_list (map (\<lambda>d. max 0 d) (deltas ?es)) \<le> 2 * B * real (length ?es - 1)"
    using bnd by (rule sum_positive_deltas_bound)
  also have "\<dots> \<le> 2 * B * real (length points)"
  proof -
    have "0 \<le> 2 * B" by (simp add: B_def)
    moreover have "real (length ?es - 1) \<le> real (length points)" by simp
    ultimately show ?thesis by (rule mult_left_mono [rotated])
  qed
  also have "\<dots> = 2 ^ 53" using n by (simp add: B_def)
  finally have s: "sum_list (map (\<lambda>d. max 0 d) (deltas ?es)) \<le> 2 ^ 53" .
  have "flush64 T (hysteresisScan64 T (deltas ?es) (0, 0)) =
        flush T (hysteresisScan T (deltas ?es) (0, 0))"
    using deltas_Ints [OF ints] s by (intro flush_scan64_exact) simp_all
  then show ?thesis
    by (simp add: calculateCumulativeAscent64_scan calculateCumulativeAscent_scan d)
qed

lemma wholeElevations_examples:
  "wholeElevations (map Elevation (map elevationPoint [0, 10, 20, 30]))"
  "wholeElevations (map Elevation (map elevationPoint [5, 7, 6, 9]))"
  "wholeElevations (map Elevation (map elevationPoint [0, 3, 0, 5, 0]))"
  by (simp_all add: wholeElevations_def elevationPoint_def)

section \<open>Two tracks evaluated in float64\<close>

lemma gate0_lit0: "rnd64 (21 / 10) = 4728779608739021 / 2251799813685248"
  by (subst rnd64_eval_frac [where n = 51]) (simp_all add: roundHalfEven_def)

lemma gate0_lit1: "rnd64 (29 / 10) = 6530219459687219 / 2251799813685248"
  by (subst rnd64_eval_frac [where n = 51]) (simp_all add: roundHalfEven_def)

lemma gate0_lit2: "rnd64 (37 / 10) = 4165829655317709 / 1125899906842624"
  by (subst rnd64_eval_frac [where n = 51]) (simp_all add: roundHalfEven_def)

lemma gate0_lit3: "rnd64 (23 / 5) = 2589569785738035 / 562949953421312"
  by (subst rnd64_eval_frac [where n = 50]) (simp_all add: roundHalfEven_def)

lemma gate0_lit4: "rnd64 (24 / 5) = 5404319552844595 / 1125899906842624"
  by (subst rnd64_eval_frac [where n = 50]) (simp_all add: roundHalfEven_def)

lemma gate0_op5: "fsub64 (6530219459687219 / 2251799813685248) (4728779608739021 / 2251799813685248) = 900719925474099 / 1125899906842624"
  by (simp only: fsub64_def, subst rnd64_eval_frac [where n = 53]) (simp_all add: roundHalfEven_def)

lemma gate0_op6: "fsub64 (4165829655317709 / 1125899906842624) (6530219459687219 / 2251799813685248) = 1801439850948199 / 2251799813685248"
  by (simp only: fsub64_def, subst rnd64_eval_frac [where n = 53]) (simp_all add: roundHalfEven_def)

lemma gate0_op7: "fsub64 0 (4165829655317709 / 1125899906842624) = - (4165829655317709 / 1125899906842624)"
  by (simp only: fsub64_def, subst rnd64_eval_frac [where n = 51]) (simp_all add: roundHalfEven_def)

lemma gate0_op8: "fsub64 (2589569785738035 / 562949953421312) 0 = 2589569785738035 / 562949953421312"
  by (simp only: fsub64_def, subst rnd64_eval_frac [where n = 50]) (simp_all add: roundHalfEven_def)

lemma gate0_op9: "fsub64 (5404319552844595 / 1125899906842624) (2589569785738035 / 562949953421312) = 225179981368525 / 1125899906842624"
  by (simp only: fsub64_def, subst rnd64_eval_frac [where n = 55]) (simp_all add: roundHalfEven_def)

lemma gate0_op10: "fadd64 0 (900719925474099 / 1125899906842624) = 900719925474099 / 1125899906842624"
  by (simp only: fadd64_def, subst rnd64_eval_frac [where n = 53]) (simp_all add: roundHalfEven_def)

lemma gate0_op11: "fadd64 (900719925474099 / 1125899906842624) (1801439850948199 / 2251799813685248) = 3602879701896397 / 2251799813685248"
  by (simp only: fadd64_def, subst rnd64_eval_frac [where n = 52]) (simp_all add: roundHalfEven_def)

lemma gate0_op12: "fadd64 0 (3602879701896397 / 2251799813685248) = 3602879701896397 / 2251799813685248"
  by (simp only: fadd64_def, subst rnd64_eval_frac [where n = 52]) (simp_all add: roundHalfEven_def)

lemma gate0_op13: "fadd64 0 (2589569785738035 / 562949953421312) = 2589569785738035 / 562949953421312"
  by (simp only: fadd64_def, subst rnd64_eval_frac [where n = 50]) (simp_all add: roundHalfEven_def)

lemma gate0_op14: "fadd64 (2589569785738035 / 562949953421312) (225179981368525 / 1125899906842624) = 5404319552844595 / 1125899906842624"
  by (simp only: fadd64_def, subst rnd64_eval_frac [where n = 50]) (simp_all add: roundHalfEven_def)

lemma gate0_op15: "fadd64 (3602879701896397 / 2251799813685248) (5404319552844595 / 1125899906842624) = 3602879701896397 / 562949953421312"
  by (simp only: fadd64_def, subst rnd64_eval_frac [where n = 50]) (simp_all add: roundHalfEven_def)

lemma gate0_op16: "fadd64 (3602879701896397 / 2251799813685248) 0 = 3602879701896397 / 2251799813685248"
  by (simp only: fadd64_def, subst rnd64_eval_frac [where n = 52]) (simp_all add: roundHalfEven_def)

lemma gate0_op17: "fadd64 (3602879701896397 / 2251799813685248) (2589569785738035 / 562949953421312) = 1745144855606067 / 281474976710656"
  by (simp only: fadd64_def, subst rnd64_eval_frac [where n = 50]) (simp_all add: roundHalfEven_def)

lemma gate0_op18: "fadd64 (1745144855606067 / 281474976710656) (225179981368525 / 1125899906842624) = 7205759403792793 / 1125899906842624"
  by (simp only: fadd64_def, subst rnd64_eval_frac [where n = 50]) (simp_all add: roundHalfEven_def)

lemma gate0_op19: "fadd64 (225179981368525 / 1125899906842624) 0 = 225179981368525 / 1125899906842624"
  by (simp only: fadd64_def, subst rnd64_eval_frac [where n = 55]) (simp_all add: roundHalfEven_def)

lemma gate0_op20: "fadd64 0 (5404319552844595 / 1125899906842624) = 5404319552844595 / 1125899906842624"
  by (simp only: fadd64_def, subst rnd64_eval_frac [where n = 50]) (simp_all add: roundHalfEven_def)

lemma gate0_op21: "fadd64 (1801439850948199 / 2251799813685248) (5404319552844595 / 1125899906842624) = 3152519739159347 / 562949953421312"
  by (simp only: fadd64_def, subst rnd64_eval_frac [where n = 50]) (simp_all add: roundHalfEven_def)

lemma gate0_op22: "fadd64 (900719925474099 / 1125899906842624) (3152519739159347 / 562949953421312) = 7205759403792793 / 1125899906842624"
  by (simp only: fadd64_def, subst rnd64_eval_frac [where n = 50]) (simp_all add: roundHalfEven_def)

lemmas gate0_ops = gate0_lit0 gate0_lit1 gate0_lit2 gate0_lit3 gate0_lit4 gate0_op5 gate0_op6 gate0_op7 gate0_op8 gate0_op9 gate0_op10 gate0_op11 gate0_op12 gate0_op13 gate0_op14 gate0_op15 gate0_op16 gate0_op17 gate0_op18 gate0_op19 gate0_op20 gate0_op21 gate0_op22

lemma gate0_elevations:
  "map Elevation (decimalTrack [2.1, 2.9, 3.7, 0, 4.6, 4.8]) =
     [4728779608739021 / 2251799813685248, 6530219459687219 / 2251799813685248,
      4165829655317709 / 1125899906842624, 0, 2589569785738035 / 562949953421312,
      5404319552844595 / 1125899906842624]"
  by (simp add: decimalTrack_def elevationPoint_def gate0_ops)

lemma gate0_deltas64:
  "deltas64 (map Elevation (decimalTrack [2.1, 2.9, 3.7, 0, 4.6, 4.8])) =
     [900719925474099 / 1125899906842624, 1801439850948199 / 2251799813685248,
      - (4165829655317709 / 1125899906842624), 2589569785738035 / 562949953421312,
      225179981368525 / 1125899906842624]"
  unfolding gate0_elevations by (simp add: gate0_ops)

lemma gate0_code:
  "calculateCumulativeAscent64 (decimalTrack [2.1, 2.9, 3.7, 0, 4.6, 4.8]) 0 = 3602879701896397 / 562949953421312"
  unfolding calculateCumulativeAscent64_scan gate0_deltas64
  by (simp add: decimalTrack_def gate0_ops)

lemma gate0_left:
  "naiveLeft64 (map Elevation (decimalTrack [2.1, 2.9, 3.7, 0, 4.6, 4.8])) = 7205759403792793 / 1125899906842624"
  unfolding naiveLeft64_def gate0_deltas64 by (simp add: gate0_ops)

lemma gate0_right:
  "naiveRight64 (map Elevation (decimalTrack [2.1, 2.9, 3.7, 0, 4.6, 4.8])) = 7205759403792793 / 1125899906842624"
  unfolding naiveRight64_def gate0_deltas64 by (simp add: gate0_ops)

lemma gate0_exact:
  "naiveAscent (map Elevation (decimalTrack [2.1, 2.9, 3.7, 0, 4.6, 4.8])) = 14411518807585587 / 2251799813685248"
  unfolding naiveAscent_def gate0_elevations by simp

lemma gate15_lit0: "rnd64 (11 / 10) = 2476979795053773 / 2251799813685248"
  by (subst rnd64_eval_frac [where n = 52]) (simp_all add: roundHalfEven_def)

lemma gate15_lit1: "rnd64 (14 / 5) = 3152519739159347 / 1125899906842624"
  by (subst rnd64_eval_frac [where n = 51]) (simp_all add: roundHalfEven_def)

lemma gate15_lit2: "rnd64 (22 / 5) = 2476979795053773 / 562949953421312"
  by (subst rnd64_eval_frac [where n = 50]) (simp_all add: roundHalfEven_def)

lemma gate15_lit3: "rnd64 (2 / 5) = 3602879701896397 / 9007199254740992"
  by (subst rnd64_eval_frac [where n = 54]) (simp_all add: roundHalfEven_def)

lemma gate15_lit4: "rnd64 (17 / 10) = 7656119366529843 / 4503599627370496"
  by (subst rnd64_eval_frac [where n = 52]) (simp_all add: roundHalfEven_def)

lemma gate15_lit5: "rnd64 (11 / 5) = 2476979795053773 / 1125899906842624"
  by (subst rnd64_eval_frac [where n = 51]) (simp_all add: roundHalfEven_def)

lemma gate15_op6: "fsub64 (3152519739159347 / 1125899906842624) (2476979795053773 / 2251799813685248) = 3828059683264921 / 2251799813685248"
  by (simp only: fsub64_def, subst rnd64_eval_frac [where n = 52]) (simp_all add: roundHalfEven_def)

lemma gate15_op7: "fsub64 (2476979795053773 / 562949953421312) (3152519739159347 / 1125899906842624) = 1801439850948199 / 1125899906842624"
  by (simp only: fsub64_def, subst rnd64_eval_frac [where n = 52]) (simp_all add: roundHalfEven_def)

lemma gate15_op8: "fsub64 (3602879701896397 / 9007199254740992) (2476979795053773 / 562949953421312) = - 4"
  by (simp only: fsub64_def, subst rnd64_eval_frac [where n = 50]) (simp_all add: roundHalfEven_def)

lemma gate15_op9: "fsub64 (7656119366529843 / 4503599627370496) (3602879701896397 / 9007199254740992) = 1463669878895411 / 1125899906842624"
  by (simp only: fsub64_def, subst rnd64_eval_frac [where n = 52]) (simp_all add: roundHalfEven_def)

lemma gate15_op10: "fsub64 (2476979795053773 / 1125899906842624) (7656119366529843 / 4503599627370496) = 2251799813685249 / 4503599627370496"
  by (simp only: fsub64_def, subst rnd64_eval_frac [where n = 53]) (simp_all add: roundHalfEven_def)

lemma gate15_op11: "fadd64 0 (3828059683264921 / 2251799813685248) = 3828059683264921 / 2251799813685248"
  by (simp only: fadd64_def, subst rnd64_eval_frac [where n = 52]) (simp_all add: roundHalfEven_def)

lemma gate15_op12: "fadd64 (3828059683264921 / 2251799813685248) (1801439850948199 / 1125899906842624) = 7430939385161319 / 2251799813685248"
  by (simp only: fadd64_def, subst rnd64_eval_frac [where n = 51]) (simp_all add: roundHalfEven_def)

lemma gate15_op13: "fadd64 0 (7430939385161319 / 2251799813685248) = 7430939385161319 / 2251799813685248"
  by (simp only: fadd64_def, subst rnd64_eval_frac [where n = 51]) (simp_all add: roundHalfEven_def)

lemma gate15_op14: "fadd64 0 (1463669878895411 / 1125899906842624) = 1463669878895411 / 1125899906842624"
  by (simp only: fadd64_def, subst rnd64_eval_frac [where n = 52]) (simp_all add: roundHalfEven_def)

lemma gate15_op15: "fadd64 (1463669878895411 / 1125899906842624) (2251799813685249 / 4503599627370496) = 8106479329266893 / 4503599627370496"
  by (simp only: fadd64_def, subst rnd64_eval_frac [where n = 52]) (simp_all add: roundHalfEven_def)

lemma gate15_op16: "fadd64 (7430939385161319 / 2251799813685248) (8106479329266893 / 4503599627370496) = 5742089524897383 / 1125899906842624"
  by (simp only: fadd64_def, subst rnd64_eval_frac [where n = 50]) (simp_all add: roundHalfEven_def)

lemma gate15_op17: "fadd64 (7430939385161319 / 2251799813685248) 0 = 7430939385161319 / 2251799813685248"
  by (simp only: fadd64_def, subst rnd64_eval_frac [where n = 51]) (simp_all add: roundHalfEven_def)

lemma gate15_op18: "fadd64 (7430939385161319 / 2251799813685248) (1463669878895411 / 1125899906842624) = 2589569785738035 / 562949953421312"
  by (simp only: fadd64_def, subst rnd64_eval_frac [where n = 50]) (simp_all add: roundHalfEven_def)

lemma gate15_op19: "fadd64 (2589569785738035 / 562949953421312) (2251799813685249 / 4503599627370496) = 2871044762448691 / 562949953421312"
  by (simp only: fadd64_def, subst rnd64_eval_frac [where n = 50]) (simp_all add: roundHalfEven_def)

lemma gate15_op20: "fadd64 (2251799813685249 / 4503599627370496) 0 = 2251799813685249 / 4503599627370496"
  by (simp only: fadd64_def, subst rnd64_eval_frac [where n = 53]) (simp_all add: roundHalfEven_def)

lemma gate15_op21: "fadd64 0 (8106479329266893 / 4503599627370496) = 8106479329266893 / 4503599627370496"
  by (simp only: fadd64_def, subst rnd64_eval_frac [where n = 52]) (simp_all add: roundHalfEven_def)

lemma gate15_op22: "fadd64 (1801439850948199 / 1125899906842624) (8106479329266893 / 4503599627370496) = 1914029841632461 / 562949953421312"
  by (simp only: fadd64_def, subst rnd64_eval_frac [where n = 51]) (simp_all add: roundHalfEven_def)

lemma gate15_op23: "fadd64 (3828059683264921 / 2251799813685248) (1914029841632461 / 562949953421312) = 2871044762448691 / 562949953421312"
  by (simp only: fadd64_def, subst rnd64_eval_frac [where n = 50]) (simp_all add: roundHalfEven_def)

lemmas gate15_ops = gate15_lit0 gate15_lit1 gate15_lit2 gate15_lit3 gate15_lit4 gate15_lit5 gate15_op6 gate15_op7 gate15_op8 gate15_op9 gate15_op10 gate15_op11 gate15_op12 gate15_op13 gate15_op14 gate15_op15 gate15_op16 gate15_op17 gate15_op18 gate15_op19 gate15_op20 gate15_op21 gate15_op22 gate15_op23

lemma gate15_elevations:
  "map Elevation (decimalTrack [1.1, 2.8, 4.4, 0.4, 1.7, 2.2]) =
     [2476979795053773 / 2251799813685248, 3152519739159347 / 1125899906842624,
      2476979795053773 / 562949953421312, 3602879701896397 / 9007199254740992,
      7656119366529843 / 4503599627370496, 2476979795053773 / 1125899906842624]"
  by (simp add: decimalTrack_def elevationPoint_def gate15_ops)

lemma gate15_deltas64:
  "deltas64 (map Elevation (decimalTrack [1.1, 2.8, 4.4, 0.4, 1.7, 2.2])) =
     [3828059683264921 / 2251799813685248, 1801439850948199 / 1125899906842624, - 4,
      1463669878895411 / 1125899906842624, 2251799813685249 / 4503599627370496]"
  unfolding gate15_elevations by (simp add: gate15_ops)

lemma gate15_code:
  "calculateCumulativeAscent64 (decimalTrack [1.1, 2.8, 4.4, 0.4, 1.7, 2.2]) 1.5 = 5742089524897383 / 1125899906842624"
  unfolding calculateCumulativeAscent64_scan gate15_deltas64
  by (simp add: decimalTrack_def gate15_ops)

lemma gate15_left:
  "naiveLeft64 (map Elevation (decimalTrack [1.1, 2.8, 4.4, 0.4, 1.7, 2.2])) = 2871044762448691 / 562949953421312"
  unfolding naiveLeft64_def gate15_deltas64 by (simp add: gate15_ops)

lemma gate15_right:
  "naiveRight64 (map Elevation (decimalTrack [1.1, 2.8, 4.4, 0.4, 1.7, 2.2])) = 2871044762448691 / 562949953421312"
  unfolding naiveRight64_def gate15_deltas64 by (simp add: gate15_ops)

lemma gate15_exact:
  "naiveAscent (map Elevation (decimalTrack [1.1, 2.8, 4.4, 0.4, 1.7, 2.2])) = 45936716199179063 / 9007199254740992"
  unfolding naiveAscent_def gate15_elevations by simp

text \<open>
  Claim C5, in float64 arithmetic. For every point sequence and every threshold that is not
  positive, calculateCumulativeAscent commits every climb: its result is that of the filter
  without the gate. The result is the naive sum of the positive consecutive deltas when no operation
  rounds, as for whole-number elevations; with threshold 0 on the elevations 0, 10, 20, 30
  it returns exactly 30.
\<close>

theorem calculateCumulativeAscent64_degenerate_threshold:
  "(T \<le> 0 \<longrightarrow>
      calculateCumulativeAscent64 points T =
        (if length points < 2 then 0
         else commitAll64 (deltas64 (map Elevation points)) (0, 0))) \<and>
   (T \<le> 0 \<and> wholeElevations (map Elevation points) \<longrightarrow>
      calculateCumulativeAscent64 points T = naiveAscent (map Elevation points)) \<and>
   calculateCumulativeAscent64 (map elevationPoint [0, 10, 20, 30]) 0 = 30"
proof (intro conjI impI)
  assume "T \<le> 0"
  then show "calculateCumulativeAscent64 points T =
        (if length points < 2 then 0
         else commitAll64 (deltas64 (map Elevation points)) (0, 0))"
    using flush_scan64_commitAll [of T 0 "deltas64 (map Elevation points)" 0]
    by (simp add: calculateCumulativeAscent64_scan)
next
  assume "T \<le> 0 \<and> wholeElevations (map Elevation points)"
  then show "calculateCumulativeAscent64 points T = naiveAscent (map Elevation points)"
    by (simp add: calculateCumulativeAscent64_exact calculateCumulativeAscent_nonpos_naive)
next
  have "calculateCumulativeAscent64 (map elevationPoint [0, 10, 20, 30]) 0 =
        calculateCumulativeAscent (map elevationPoint [0, 10, 20, 30]) 0"
    using wholeElevations_examples(1) by (rule calculateCumulativeAscent64_exact)
  also have "\<dots> = 30"
    by (simp add: calculateCumulativeAscent_def ascentLoop.simps elevationPoint_def)
  finally show "calculateCumulativeAscent64 (map elevationPoint [0, 10, 20, 30]) 0 = 30" .
qed

theorem calculateCumulativeAscent64_degenerate_threshold_witness:
  "(- 1 :: real) \<le> 0 \<and> wholeElevations (map Elevation (map elevationPoint [5, 7, 6, 9])) \<and>
   calculateCumulativeAscent64 (map elevationPoint [5, 7, 6, 9]) (- 1) = 5 \<and>
   commitAll64 (deltas64 (map Elevation (map elevationPoint [5, 7, 6, 9]))) (0, 0) = 5"
proof -
  note inst = calculateCumulativeAscent64_degenerate_threshold
    [of "- 1" "map elevationPoint [5, 7, 6, 9]"]
  have t: "(- 1 :: real) \<le> 0" by simp
  have n: "naiveAscent (map Elevation (map elevationPoint [5, 7, 6, 9])) = 5"
    by (simp add: naiveAscent_def elevationPoint_def)
  from inst t wholeElevations_examples(2) n
  have v: "calculateCumulativeAscent64 (map elevationPoint [5, 7, 6, 9]) (- 1) = 5"
    by simp
  from inst t v have "commitAll64 (deltas64 (map Elevation (map elevationPoint [5, 7, 6, 9]))) (0, 0) = 5"
    by simp
  with t wholeElevations_examples(2) v show ?thesis by simp
qed

text \<open>
  The claim as stated fails: on the elevations 2.1, 2.9, 3.7, 0, 4.6, 4.8 with threshold 0
  the result is neither the naive sum of the positive deltas in exact arithmetic nor that
  sum computed in \<^verbatim>\<open>float64\<close>, from the first delta or from the last.
\<close>

theorem calculateCumulativeAscent64_naive_sum_counterexample:
  "(0 :: real) \<le> 0 \<and>
   calculateCumulativeAscent64 (decimalTrack [2.1, 2.9, 3.7, 0, 4.6, 4.8]) 0 \<noteq>
     naiveAscent (map Elevation (decimalTrack [2.1, 2.9, 3.7, 0, 4.6, 4.8])) \<and>
   calculateCumulativeAscent64 (decimalTrack [2.1, 2.9, 3.7, 0, 4.6, 4.8]) 0 \<noteq>
     naiveLeft64 (map Elevation (decimalTrack [2.1, 2.9, 3.7, 0, 4.6, 4.8])) \<and>
   calculateCumulativeAscent64 (decimalTrack [2.1, 2.9, 3.7, 0, 4.6, 4.8]) 0 \<noteq>
     naiveRight64 (map Elevation (decimalTrack [2.1, 2.9, 3.7, 0, 4.6, 4.8]))"
  unfolding gate0_code gate0_exact gate0_left gate0_right by simp

text \<open>
  Claim C10, in float64 arithmetic. For every point sequence calculateCumulativeAscent is
  antitone in the threshold: a larger threshold never gives a larger result; and the result is at least
  0 for every threshold. It is at most the naive sum of the positive elevation deltas when
  no operation rounds, as for whole-number elevations.
\<close>

theorem calculateCumulativeAscent64_antitone:
  "(T1 \<le> T2 \<longrightarrow>
      calculateCumulativeAscent64 points T2 \<le> calculateCumulativeAscent64 points T1) \<and>
   0 \<le> calculateCumulativeAscent64 points T \<and>
   (wholeElevations (map Elevation points) \<longrightarrow>
      calculateCumulativeAscent64 points T \<le> naiveAscent (map Elevation points))"
proof (intro conjI impI)
  assume "T1 \<le> T2"
  then show "calculateCumulativeAscent64 points T2 \<le> calculateCumulativeAscent64 points T1"
    using flush_scan64_antitone [of T1 T2 0 0 0 "deltas64 (map Elevation points)"]
    by (simp add: calculateCumulativeAscent64_scan)
next
  show "0 \<le> calculateCumulativeAscent64 points T"
    using flush_scan64_nonneg [of 0 0 T "deltas64 (map Elevation points)"]
    by (simp add: calculateCumulativeAscent64_scan)
next
  assume "wholeElevations (map Elevation points)"
  then show "calculateCumulativeAscent64 points T \<le> naiveAscent (map Elevation points)"
    by (simp add: calculateCumulativeAscent64_exact calculateCumulativeAscent_le_naive)
qed

theorem calculateCumulativeAscent64_antitone_witness:
  "(0 :: real) \<le> 3 / 2 \<and>
   calculateCumulativeAscent64 (decimalTrack [1.1, 2.8, 4.4, 0.4, 1.7, 2.2]) (3 / 2) \<le>
     calculateCumulativeAscent64 (decimalTrack [1.1, 2.8, 4.4, 0.4, 1.7, 2.2]) 0 \<and>
   wholeElevations (map Elevation (map elevationPoint [0, 3, 0, 5, 0])) \<and>
   calculateCumulativeAscent64 (map elevationPoint [0, 3, 0, 5, 0]) 4 \<le> 8"
proof -
  have n: "naiveAscent (map Elevation (map elevationPoint [0, 3, 0, 5, 0])) = 8"
    by (simp add: naiveAscent_def elevationPoint_def)
  from calculateCumulativeAscent64_antitone
      [of 0 "3 / 2" "decimalTrack [1.1, 2.8, 4.4, 0.4, 1.7, 2.2]"]
    calculateCumulativeAscent64_antitone [of _ _ "map elevationPoint [0, 3, 0, 5, 0]" 4]
    wholeElevations_examples(3) n
  show ?thesis by simp
qed

text \<open>
  The claim as stated fails in its upper bound: on the elevations 1.1, 2.8, 4.4, 0.4, 1.7,
  2.2 with threshold 1.5 the result exceeds the naive sum of the positive deltas, in exact
  arithmetic and in \<^verbatim>\<open>float64\<close> from either end.
\<close>

theorem calculateCumulativeAscent64_upper_bound_counterexample:
  "(0 :: real) \<le> 1.5 \<and>
   naiveAscent (map Elevation (decimalTrack [1.1, 2.8, 4.4, 0.4, 1.7, 2.2])) <
     calculateCumulativeAscent64 (decimalTrack [1.1, 2.8, 4.4, 0.4, 1.7, 2.2]) 1.5 \<and>
   naiveLeft64 (map Elevation (decimalTrack [1.1, 2.8, 4.4, 0.4, 1.7, 2.2])) <
     calculateCumulativeAscent64 (decimalTrack [1.1, 2.8, 4.4, 0.4, 1.7, 2.2]) 1.5 \<and>
   naiveRight64 (map Elevation (decimalTrack [1.1, 2.8, 4.4, 0.4, 1.7, 2.2])) <
     calculateCumulativeAscent64 (decimalTrack [1.1, 2.8, 4.4, 0.4, 1.7, 2.2]) 1.5"
  unfolding gate15_code gate15_exact gate15_left gate15_right by simp

section \<open>The smoothers compute the clipped window mean\<close>

lemma int_interval_insert: "j \<le> e \<Longrightarrow> {j..e} = insert j {j + 1..e}" for j e :: int
  by auto

lemma elevationWindow_sum:
  "elevationWindow points j e (s, c) =
     (s + (\<Sum>k = j..e. Elevation (points ! nat k)), c + int (card {j..e}))"
proof (induction points j e "(s, c)" arbitrary: s c rule: elevationWindow.induct)
  case (1 points j e s c)
  show ?case
  proof (cases "j \<le> e")
    case True
    have "elevationWindow points j e (s, c) =
            elevationWindow points (j + 1) e (s + Elevation (points ! nat j), c + 1)"
      using True by (subst elevationWindow.simps) simp
    also have "\<dots> = (s + Elevation (points ! nat j) + (\<Sum>k = j + 1..e. Elevation (points ! nat k)),
                     c + 1 + int (card {j + 1..e}))"
      by (rule "1.hyps" [OF True])
    also have "\<dots> = (s + (\<Sum>k = j..e. Elevation (points ! nat k)), c + int (card {j..e}))"
      using True by (simp add: int_interval_insert [OF True] add.assoc)
    finally show ?thesis .
  next
    case False
    then show ?thesis by (subst elevationWindow.simps) simp
  qed
qed

lemma latLonWindow_sum:
  "latLonWindow points j e (s, t, c) =
     (s + (\<Sum>k = j..e. Latitude (points ! nat k)), t + (\<Sum>k = j..e. Longitude (points ! nat k)),
      c + int (card {j..e}))"
proof (induction points j e "(s, t, c)" arbitrary: s t c rule: latLonWindow.induct)
  case (1 points j e s t c)
  show ?case
  proof (cases "j \<le> e")
    case True
    have "latLonWindow points j e (s, t, c) =
            latLonWindow points (j + 1) e
              (s + Latitude (points ! nat j), t + Longitude (points ! nat j), c + 1)"
      using True by (subst latLonWindow.simps) simp
    also have "\<dots> = (s + Latitude (points ! nat j) + (\<Sum>k = j + 1..e. Latitude (points ! nat k)),
                     t + Longitude (points ! nat j) + (\<Sum>k = j + 1..e. Longitude (points ! nat k)),
                     c + 1 + int (card {j + 1..e}))"
      by (rule "1.hyps" [OF True])
    also have "\<dots> = (s + (\<Sum>k = j..e. Latitude (points ! nat k)),
                     t + (\<Sum>k = j..e. Longitude (points ! nat k)), c + int (card {j..e}))"
      using True by (simp add: int_interval_insert [OF True] add.assoc)
    finally show ?thesis .
  next
    case False
    then show ?thesis by (subst latLonWindow.simps) simp
  qed
qed

lemma clip_start: "(if s < 0 then 0 else s) = max 0 s" for s :: int
  by auto

lemma clip_end: "(if n \<le> e then n - 1 else e) = min (n - 1) e" for n e :: int
  by auto

lemma movingAverageLoop_step:
  assumes "i < length points" "length sm = length points"
  shows "movingAverageLoop points (W div 2) i sm =
     movingAverageLoop points (W div 2) (i + 1)
       (sm[i := (points ! i)\<lparr>Elevation := windowMean Elevation points W i\<rparr>])"
  using assms
  by (subst movingAverageLoop.simps)
     (simp add: Let_def elevationWindow_sum windowMean_def clip_start clip_end)

lemma latLonLoop_step:
  assumes "i < length points" "length sm = length points"
  shows "latLonLoop points (W div 2) i sm =
     latLonLoop points (W div 2) (i + 1)
       (sm[i := (points ! i)\<lparr>Latitude := windowMean Latitude points W i,
                               Longitude := windowMean Longitude points W i\<rparr>])"
  using assms
  by (subst latLonLoop.simps)
     (simp add: Let_def latLonWindow_sum windowMean_def clip_start clip_end)

lemma movingAverageLoop_length:
  "length (movingAverageLoop points h i sm) = length sm"
proof (induction points h i sm rule: movingAverageLoop.induct)
  case (1 points h i sm)
  show ?case
  proof (cases "i < length points")
    case True
    then show ?thesis
      using "1.IH" [OF True refl refl refl refl refl refl _ refl]
      by (subst movingAverageLoop.simps) (simp add: Let_def split: prod.splits)
  next
    case False
    then show ?thesis by (subst movingAverageLoop.simps) simp
  qed
qed

lemma movingAverageLoop_nth:
  "length sm = length points \<Longrightarrow> k < length points \<Longrightarrow>
   movingAverageLoop points (W div 2) i sm ! k =
     (if k < i then sm ! k else (points ! k)\<lparr>Elevation := windowMean Elevation points W k\<rparr>)"
proof (induction "length points - i" arbitrary: i sm)
  case 0
  then have "\<not> i < length points" by simp
  with 0 show ?case by (subst movingAverageLoop.simps) simp
next
  case (Suc n)
  then have i: "i < length points" by simp
  have "movingAverageLoop points (W div 2) (i + 1)
          (sm[i := (points ! i)\<lparr>Elevation := windowMean Elevation points W i\<rparr>]) ! k =
        (if k < i + 1 then sm[i := (points ! i)\<lparr>Elevation := windowMean Elevation points W i\<rparr>] ! k
         else (points ! k)\<lparr>Elevation := windowMean Elevation points W k\<rparr>)"
    using Suc by (intro Suc.hyps(1)) simp_all
  then show ?case
    using i Suc.prems by (auto simp: movingAverageLoop_step nth_list_update less_Suc_eq)
qed

lemma latLonLoop_length:
  "length (latLonLoop points h i sm) = length sm"
proof (induction points h i sm rule: latLonLoop.induct)
  case (1 points h i sm)
  show ?case
  proof (cases "i < length points")
    case True
    then show ?thesis
      using "1.IH" [OF True refl refl refl refl refl _ _ refl refl refl]
      by (subst latLonLoop.simps) (simp add: Let_def split: prod.splits)
  next
    case False
    then show ?thesis by (subst latLonLoop.simps) simp
  qed
qed

lemma latLonLoop_nth:
  "length sm = length points \<Longrightarrow> k < length points \<Longrightarrow>
   latLonLoop points (W div 2) i sm ! k =
     (if k < i then sm ! k
      else (points ! k)\<lparr>Latitude := windowMean Latitude points W k,
                         Longitude := windowMean Longitude points W k\<rparr>)"
proof (induction "length points - i" arbitrary: i sm)
  case 0
  then have "\<not> i < length points" by simp
  with 0 show ?case by (subst latLonLoop.simps) simp
next
  case (Suc n)
  then have i: "i < length points" by simp
  let ?sm = "sm[i := (points ! i)\<lparr>Latitude := windowMean Latitude points W i,
                                   Longitude := windowMean Longitude points W i\<rparr>]"
  have "latLonLoop points (W div 2) (i + 1) ?sm ! k =
        (if k < i + 1 then ?sm ! k
         else (points ! k)\<lparr>Latitude := windowMean Latitude points W k,
                            Longitude := windowMean Longitude points W k\<rparr>)"
    using Suc by (intro Suc.hyps(1)) simp_all
  then show ?case
    using i Suc.prems by (auto simp: latLonLoop_step nth_list_update less_Suc_eq)
qed

lemma odd_window: "(if W mod 2 = 0 then W + 1 else W) = oddWindow W" for W :: int
  by (simp add: oddWindow_def even_iff_mod_2_eq_zero)

lemma applyMovingAverage_length: "length (applyMovingAverage points W) = length points"
  by (simp add: applyMovingAverage_def Let_def movingAverageLoop_length)

lemma applyLatLonSmoothing_length: "length (applyLatLonSmoothing points W) = length points"
  by (simp add: applyLatLonSmoothing_def Let_def latLonLoop_length)

lemma applyMovingAverage_nth:
  "1 \<le> W \<Longrightarrow> i < length points \<Longrightarrow>
   applyMovingAverage points W ! i =
     (points ! i)\<lparr>Elevation := windowMean Elevation points (oddWindow W) i\<rparr>"
  using movingAverageLoop_nth [of "replicate (length points) zeroTrackPoint" points i "oddWindow W" 0]
  by (auto simp: applyMovingAverage_def Let_def odd_window)

lemma applyLatLonSmoothing_nth:
  "1 \<le> W \<Longrightarrow> i < length points \<Longrightarrow>
   applyLatLonSmoothing points W ! i =
     (points ! i)\<lparr>Latitude := windowMean Latitude points (oddWindow W) i,
                   Longitude := windowMean Longitude points (oddWindow W) i\<rparr>"
  using latLonLoop_nth [of "replicate (length points) zeroTrackPoint" points i "oddWindow W" 0]
  by (auto simp: applyLatLonSmoothing_def Let_def odd_window)

lemma applyMovingAverage_noop: "W < 1 \<or> points = [] \<Longrightarrow> applyMovingAverage points W = points"
  by (auto simp: applyMovingAverage_def)

lemma applyLatLonSmoothing_noop: "W < 1 \<or> points = [] \<Longrightarrow> applyLatLonSmoothing points W = points"
  by (auto simp: applyLatLonSmoothing_def)

lemma exampleTrack_length: "length exampleTrack = 4"
  by (simp add: exampleTrack_def)





text \<open>
  Claim C7. For every point sequence and every window size, applyMovingAverage leaves the
  latitude, the longitude and the timestamp (and the XML name) of the point at every index
  unchanged, applyLatLonSmoothing leaves the elevation and the timestamp (and the XML name)
  unchanged, and neither changes the length or the order of the sequence.
\<close>

theorem smoothers_frame:
  "length (applyMovingAverage points W) = length points \<and>
   length (applyLatLonSmoothing points W) = length points \<and>
   (\<forall>i<length points.
      XMLName (applyMovingAverage points W ! i) = XMLName (points ! i) \<and>
      Latitude (applyMovingAverage points W ! i) = Latitude (points ! i) \<and>
      Longitude (applyMovingAverage points W ! i) = Longitude (points ! i) \<and>
      Time (applyMovingAverage points W ! i) = Time (points ! i) \<and>
      XMLName (applyLatLonSmoothing points W ! i) = XMLName (points ! i) \<and>
      Elevation (applyLatLonSmoothing points W ! i) = Elevation (points ! i) \<and>
      Time (applyLatLonSmoothing points W ! i) = Time (points ! i))"
proof (cases "1 \<le> W")
  case True
  then show ?thesis
    by (simp add: applyMovingAverage_length applyLatLonSmoothing_length applyMovingAverage_nth
        applyLatLonSmoothing_nth)
next
  case False
  then show ?thesis
    by (simp add: applyMovingAverage_noop applyLatLonSmoothing_noop)
qed

theorem smoothers_frame_witness:
  "length (applyMovingAverage exampleTrack 3) = 4 \<and>
   length (applyLatLonSmoothing exampleTrack 3) = 4 \<and>
   Latitude (applyMovingAverage exampleTrack 3 ! 1) = 51 \<and>
   Longitude (applyMovingAverage exampleTrack 3 ! 1) = 22 \<and>
   Time (applyMovingAverage exampleTrack 3 ! 1) = 60 \<and>
   Elevation (applyLatLonSmoothing exampleTrack 3 ! 2) = 6 \<and>
   Time (applyLatLonSmoothing exampleTrack 3 ! 2) = 120"
proof -
  from smoothers_frame [of exampleTrack 3]
  have len: "length (applyMovingAverage exampleTrack 3) = 4"
      "length (applyLatLonSmoothing exampleTrack 3) = 4"
    and nth: "\<forall>i<4.
      XMLName (applyMovingAverage exampleTrack 3 ! i) = XMLName (exampleTrack ! i) \<and>
      Latitude (applyMovingAverage exampleTrack 3 ! i) = Latitude (exampleTrack ! i) \<and>
      Longitude (applyMovingAverage exampleTrack 3 ! i) = Longitude (exampleTrack ! i) \<and>
      Time (applyMovingAverage exampleTrack 3 ! i) = Time (exampleTrack ! i) \<and>
      XMLName (applyLatLonSmoothing exampleTrack 3 ! i) = XMLName (exampleTrack ! i) \<and>
      Elevation (applyLatLonSmoothing exampleTrack 3 ! i) = Elevation (exampleTrack ! i) \<and>
      Time (applyLatLonSmoothing exampleTrack 3 ! i) = Time (exampleTrack ! i)"
    by (simp_all add: exampleTrack_length)
  from nth [rule_format, of 1] nth [rule_format, of 2]
  have "Latitude (applyMovingAverage exampleTrack 3 ! 1) = 51"
    "Longitude (applyMovingAverage exampleTrack 3 ! 1) = 22"
    "Time (applyMovingAverage exampleTrack 3 ! 1) = 60"
    "Elevation (applyLatLonSmoothing exampleTrack 3 ! 2) = 6"
    "Time (applyLatLonSmoothing exampleTrack 3 ! 2) = 120"
    by (simp_all add: exampleTrack_def trackPoint_def)
  with len show ?thesis by simp
qed

section \<open>The score conversion\<close>

lemma Round_of_int: "Round x = of_int (roundAwayFromZero x)"
  by (simp add: Round_def roundAwayFromZero_def)

lemma intOfFloat_of_int: "int64Range k \<Longrightarrow> intOfFloat (of_int k) = k"
  by (simp add: intOfFloat_def int64Range_def)

lemma intOfFloat_Round:
  "int64Range (roundAwayFromZero x) \<Longrightarrow> intOfFloat (Round x) = roundAwayFromZero x"
  by (simp only: Round_of_int intOfFloat_of_int)

lemma nearest_roundAwayFromZero: "nearestAwayFromZero x (roundAwayFromZero x)"
proof (cases "x < 0")
  case True
  define m where "m = \<lfloor>- x + 1 / 2\<rfloor>"
  have "of_int m \<le> - x + 1 / 2" "- x + 1 / 2 < of_int m + 1"
    unfolding m_def by linarith+
  then show ?thesis
    using True unfolding roundAwayFromZero_def nearestAwayFromZero_def m_def [symmetric]
    by (simp add: abs_if) linarith
next
  case False
  define m where "m = \<lfloor>x + 1 / 2\<rfloor>"
  have "of_int m \<le> x + 1 / 2" "x + 1 / 2 < of_int m + 1"
    unfolding m_def by linarith+
  then show ?thesis
    using False unfolding roundAwayFromZero_def nearestAwayFromZero_def m_def [symmetric]
    by (simp add: abs_if) linarith
qed

lemma quotient_examples:
  "fdiv64 560 100 = 3152519739159347 / 562949953421312"
  "fdiv64 820 100 = 2308094809027379 / 281474976710656"
  "fdiv64 250 100 = 5 / 2"
  "fdiv64 0 100 = 0"
proof -
  have "rnd64 (28 / 5) = 3152519739159347 / 562949953421312"
    by (subst rnd64_eval_frac [where n = 50]) (simp_all add: roundHalfEven_def)
  then show "fdiv64 560 100 = 3152519739159347 / 562949953421312" by (simp add: fdiv64_def)
  have "rnd64 (41 / 5) = 2308094809027379 / 281474976710656"
    by (subst rnd64_eval_frac [where n = 49]) (simp_all add: roundHalfEven_def)
  then show "fdiv64 820 100 = 2308094809027379 / 281474976710656" by (simp add: fdiv64_def)
  have "rnd64 (5 / 2) = 5 / 2"
    by (subst rnd64_eval_frac [where n = 51]) (simp_all add: roundHalfEven_def)
  then show "fdiv64 250 100 = 5 / 2" by (simp add: fdiv64_def)
  show "fdiv64 0 100 = 0" by (simp add: fdiv64_def)
qed

lemma wrapInt64_in_range: "int64Range n \<Longrightarrow> wrapInt64 n = n"
  by (simp add: wrapInt64_def int64Range_def)

lemma int_gap: "n < m \<Longrightarrow> real_of_int n + 1 \<le> real_of_int m"
  by linarith

lemma int_sign: "real_of_int n \<le> - 1 \<or> real_of_int n = 0 \<or> 1 \<le> real_of_int n"
proof -
  have "n \<le> - 1 \<or> n = 0 \<or> 1 \<le> n" by linarith
  then show ?thesis by (metis of_int_0 of_int_1 of_int_le_iff of_int_minus)
qed

lemma nearest_less_False:
  assumes "nearestAwayFromZero x n" "nearestAwayFromZero x m" "n < m"
  shows False
  using assms(1,2) int_gap [OF assms(3)] int_sign [of n] int_sign [of m]
  unfolding nearestAwayFromZero_def
  by (elim disjE conjE; linarith)

lemma nearestAwayFromZero_unique:
  assumes "nearestAwayFromZero x n" "nearestAwayFromZero x m"
  shows "n = m"
  using assms nearest_less_False [of x n m] nearest_less_False [of x m n]
  by (meson linorder_neqE)

text \<open>
  Claim C3, within the range of \<^verbatim>\<open>int\<close>. For every result whose distance in
  kilometres, rounded to the nearest integer, is in the range of a 64-bit \<^verbatim>\<open>int\<close>,
  the distance points are that integer; likewise the ascent points are the \<^verbatim>\<open>float64\<close>
  quotient of the ascent in metres by 100, rounded; exact ties round away from zero. The
  total is the sum of the two when the sum is in the range of \<^verbatim>\<open>int\<close>. The report
  states the limit of 50 exactly when the total is at least 50 and the literal total
  otherwise. 12.4 km and 560 m give 12, 6 and the total 18, shown literally; 45.6 km and
  820 m give 46, 8 and the total 54, reported as the limit 50.
\<close>

theorem score_conversion_in_range:
  "(int64Range (roundAwayFromZero (Distance r)) \<longrightarrow>
      nearestAwayFromZero (Distance r) (calculateGOTDistance (Distance r))) \<and>
   (int64Range (roundAwayFromZero (fdiv64 (Ascent r) 100)) \<longrightarrow>
      nearestAwayFromZero (fdiv64 (Ascent r) 100) (calculateGOTAscent (Ascent r))) \<and>
   (int64Range (distancePoints + ascentPoints) \<longrightarrow>
      calculateDailyGOTPoints distancePoints ascentPoints = distancePoints + ascentPoints) \<and>
   take 2 (reportDay day r) =
     [ResultLine day (Distance r) (Ascent r),
      PointsLine day (calculateGOTDistance (Distance r)) (calculateGOTAscent (Ascent r))] \<and>
   (reportDay day r ! 2 = LimitLine day 50) =
     (calculateDailyGOTPoints (calculateGOTDistance (Distance r)) (calculateGOTAscent (Ascent r))
        \<ge> 50) \<and>
   (reportDay day r ! 2 =
      AchievedLine day
        (calculateDailyGOTPoints (calculateGOTDistance (Distance r)) (calculateGOTAscent (Ascent r)))) =
     (calculateDailyGOTPoints (calculateGOTDistance (Distance r)) (calculateGOTAscent (Ascent r))
        < 50) \<and>
   reportDay day \<lparr>Distance = 12.4, Ascent = 560\<rparr> =
     [ResultLine day 12.4 560, PointsLine day 12 6, AchievedLine day 18] \<and>
   reportDay day \<lparr>Distance = 45.6, Ascent = 820\<rparr> =
     [ResultLine day 45.6 820, PointsLine day 46 8, LimitLine day 50]"
proof -
  have d: "int64Range (roundAwayFromZero (Distance r)) \<longrightarrow>
      nearestAwayFromZero (Distance r) (calculateGOTDistance (Distance r))"
    using nearest_roundAwayFromZero [of "Distance r"]
    by (simp add: calculateGOTDistance_def intOfFloat_Round)
  have a: "int64Range (roundAwayFromZero (fdiv64 (Ascent r) 100)) \<longrightarrow>
      nearestAwayFromZero (fdiv64 (Ascent r) 100) (calculateGOTAscent (Ascent r))"
    using nearest_roundAwayFromZero [of "fdiv64 (Ascent r) 100"]
    by (simp add: calculateGOTAscent_def intOfFloat_Round)
  have s: "int64Range (distancePoints + ascentPoints) \<longrightarrow>
      calculateDailyGOTPoints distancePoints ascentPoints = distancePoints + ascentPoints"
    by (simp add: calculateDailyGOTPoints_def wrapInt64_in_range)
  have l: "take 2 (reportDay day r) =
     [ResultLine day (Distance r) (Ascent r),
      PointsLine day (calculateGOTDistance (Distance r)) (calculateGOTAscent (Ascent r))]"
    "(reportDay day r ! 2 = LimitLine day 50) =
     (calculateDailyGOTPoints (calculateGOTDistance (Distance r)) (calculateGOTAscent (Ascent r))
        \<ge> 50)"
    "(reportDay day r ! 2 =
      AchievedLine day
        (calculateDailyGOTPoints (calculateGOTDistance (Distance r)) (calculateGOTAscent (Ascent r)))) =
     (calculateDailyGOTPoints (calculateGOTDistance (Distance r)) (calculateGOTAscent (Ascent r))
        < 50)"
    by (simp_all add: reportDay_def Let_def)
  have e: "reportDay day \<lparr>Distance = 12.4, Ascent = 560\<rparr> =
     [ResultLine day 12.4 560, PointsLine day 12 6, AchievedLine day 18]"
    "reportDay day \<lparr>Distance = 45.6, Ascent = 820\<rparr> =
     [ResultLine day 45.6 820, PointsLine day 46 8, LimitLine day 50]"
    by (simp_all add: reportDay_def Let_def calculateDailyGOTPoints_def calculateGOTDistance_def
        calculateGOTAscent_def quotient_examples Round_def intOfFloat_def wrapInt64_def)
  from d a s l e show ?thesis by (intro conjI)
qed

theorem score_conversion_in_range_witness:
  "int64Range (roundAwayFromZero 2.5) \<and> nearestAwayFromZero 2.5 3 \<and>
   calculateGOTDistance 2.5 = 3 \<and>
   int64Range (roundAwayFromZero (fdiv64 250 100)) \<and> nearestAwayFromZero (fdiv64 250 100) 3 \<and>
   calculateGOTAscent 250 = 3 \<and>
   int64Range (46 + 8) \<and> calculateDailyGOTPoints 46 8 = 54"
proof -
  have r: "roundAwayFromZero 2.5 = 3" "roundAwayFromZero (fdiv64 250 100) = 3"
    by (simp_all add: roundAwayFromZero_def quotient_examples)
  have g: "calculateGOTDistance 2.5 = 3" "calculateGOTAscent 250 = 3"
    by (simp_all add: calculateGOTDistance_def calculateGOTAscent_def quotient_examples Round_def
        intOfFloat_def)
  have i: "int64Range 3" "int64Range (46 + 8)"
    by (simp_all add: int64Range_def)
  from score_conversion_in_range [of "\<lparr>Distance = 2.5, Ascent = 250\<rparr>" 46 8] r g i
  show ?thesis by simp
qed

text \<open>
  The claim as stated fails outside the range of \<^verbatim>\<open>int\<close>: a distance of \<open>10 ^ 19\<close>
  kilometres gives the smallest \<^verbatim>\<open>int\<close> as distance points, reported as the total,
  and the sum of the largest \<^verbatim>\<open>int\<close> and 1 wraps around.
\<close>

theorem score_conversion_counterexample:
  "calculateGOTDistance (10 ^ 19) = - 9223372036854775808 \<and>
   \<not> nearestAwayFromZero (10 ^ 19) (calculateGOTDistance (10 ^ 19)) \<and>
   reportDay ''2024-06-01'' \<lparr>Distance = 10 ^ 19, Ascent = 0\<rparr> ! 2 =
     AchievedLine ''2024-06-01'' (- 9223372036854775808) \<and>
   calculateDailyGOTPoints 9223372036854775807 1 = - 9223372036854775808"
proof -
  have g: "calculateGOTDistance (10 ^ 19) = - 9223372036854775808"
    by (simp add: calculateGOTDistance_def Round_def intOfFloat_def)
  have a: "calculateGOTAscent 0 = 0"
    by (simp add: calculateGOTAscent_def quotient_examples Round_def intOfFloat_def)
  have n: "\<not> nearestAwayFromZero (10 ^ 19) (- 9223372036854775808)"
    by (simp add: nearestAwayFromZero_def)
  have w: "calculateDailyGOTPoints 9223372036854775807 1 = - 9223372036854775808"
    "calculateDailyGOTPoints (- 9223372036854775808) 0 = - 9223372036854775808"
    by (simp_all add: calculateDailyGOTPoints_def wrapInt64_def)
  have l: "reportDay ''2024-06-01'' \<lparr>Distance = 10 ^ 19, Ascent = 0\<rparr> ! 2 =
     AchievedLine ''2024-06-01'' (- 9223372036854775808)"
    using g a w by (simp add: reportDay_def Let_def)
  from g n l w(1) show ?thesis by (simp only: simp_thms)
qed

section \<open>The buckets of groupByDay\<close>

lemma groupByDayLoop_lookup:
  "groupByDayLoop f points grouped k =
     (if grouped k = None \<and> filter (\<lambda>p. f (Time p) = k) points = [] then None
      else Some ((case grouped k of None \<Rightarrow> [] | Some bucket \<Rightarrow> bucket) @
                 filter (\<lambda>p. f (Time p) = k) points))"
  by (induction points arbitrary: grouped) (auto simp: Let_def split: option.splits)

lemma groupByDay_lookup:
  "groupByDay format points location k =
     (if filter (\<lambda>p. dayKey format location p = k) points = [] then None
      else Some (filter (\<lambda>p. dayKey format location p = k) points))"
  by (simp add: groupByDay_def groupByDayLoop_lookup dayKey_def)

lemma groupByDay_Some:
  "groupByDay format points location k = Some b \<longleftrightarrow>
     b = filter (\<lambda>p. dayKey format location p = k) points \<and> b \<noteq> []"
  by (auto simp: groupByDay_lookup)

lemma groupByDay_dom:
  "dom (groupByDay format points location) = dayKey format location ` set points"
  by (auto simp: dom_def groupByDay_lookup filter_empty_conv)

lemma sum_mset_filter_keys:
  "finite A \<Longrightarrow> key ` set xs \<subseteq> A \<Longrightarrow> (\<Sum>k\<in>A. mset (filter (\<lambda>p. key p = k) xs)) = mset xs"
proof (induction xs)
  case Nil
  then show ?case by simp
next
  case (Cons x xs)
  have "(\<Sum>k\<in>A. mset (filter (\<lambda>p. key p = k) (x # xs))) =
        (\<Sum>k\<in>A. (if key x = k then {#x#} else {#}) + mset (filter (\<lambda>p. key p = k) xs))"
    by (intro sum.cong) auto
  also have "\<dots> = (\<Sum>k\<in>A. if key x = k then {#x#} else {#}) + (\<Sum>k\<in>A. mset (filter (\<lambda>p. key p = k) xs))"
    by (simp add: sum.distrib)
  also have "(\<Sum>k\<in>A. if key x = k then {#x#} else {#}) = {#x#}"
    using Cons.prems by simp
  also have "(\<Sum>k\<in>A. mset (filter (\<lambda>p. key p = k) xs)) = mset xs"
    using Cons by simp
  finally show ?case by simp
qed

lemma sum_length_filter_keys:
  "finite A \<Longrightarrow> key ` set xs \<subseteq> A \<Longrightarrow> (\<Sum>k\<in>A. length (filter (\<lambda>p. key p = k) xs)) = length xs"
proof (induction xs)
  case Nil
  then show ?case by simp
next
  case (Cons x xs)
  have "(\<Sum>k\<in>A. length (filter (\<lambda>p. key p = k) (x # xs))) =
        (\<Sum>k\<in>A. (if key x = k then 1 else 0) + length (filter (\<lambda>p. key p = k) xs))"
    by (intro sum.cong) auto
  also have "\<dots> = (\<Sum>k\<in>A. if key x = k then 1 else 0) + (\<Sum>k\<in>A. length (filter (\<lambda>p. key p = k) xs))"
    by (simp add: sum.distrib)
  also have "(\<Sum>k\<in>A. if key x = k then 1 else 0) = (1::nat)"
    using Cons.prems by simp
  also have "(\<Sum>k\<in>A. length (filter (\<lambda>p. key p = k) xs)) = length xs"
    using Cons by simp
  finally show ?case by simp
qed

lemma groupByDay_the:
  "k \<in> dom (groupByDay format points location) \<Longrightarrow>
   the (groupByDay format points location k) = filter (\<lambda>p. dayKey format location p = k) points"
  by (auto simp: groupByDay_lookup split: if_splits)

lemma dayTrack_buckets:
  "groupByDay hourlyDate dayTrack 0 ''0001-01-01'' =
     Some [trackPoint 50 20 100 22, trackPoint 50 20 110 23]"
  "groupByDay hourlyDate dayTrack 0 ''0001-01-02'' = Some [trackPoint 50 20 105 25]"
  "groupByDay hourlyDate dayTrack 2 ''0001-01-01'' = None"
  "groupByDay hourlyDate dayTrack 2 ''0001-01-02'' = Some dayTrack"
  by (simp_all add: groupByDay_def dayTrack_def trackPoint_def hourlyDate_def)

lemma dayTrack_keys:
  "dayKey hourlyDate 0 (trackPoint 50 20 100 22) = ''0001-01-01''"
  "dayKey hourlyDate 0 (trackPoint 50 20 110 23) = ''0001-01-01''"
  "dayKey hourlyDate 0 (trackPoint 50 20 105 25) = ''0001-01-02''"
  by (simp_all add: dayKey_def trackPoint_def hourlyDate_def)

text \<open>
  Claim C4. For every point sequence (every point carries a timestamp) and every fixed
  timezone, groupByDay places two points of the sequence in the same bucket if and only if
  their local calendar dates are equal, and every bucket holds its points in the relative
  order of the input: the bucket of a day is the input filtered by that day.
\<close>

theorem groupByDay_same_bucket:
  "(\<forall>p\<in>set points. \<forall>q\<in>set points.
      (\<exists>k bucket. groupByDay format points location k = Some bucket \<and>
         p \<in> set bucket \<and> q \<in> set bucket) \<longleftrightarrow>
      dayKey format location p = dayKey format location q) \<and>
   (\<forall>k bucket. groupByDay format points location k = Some bucket \<longrightarrow>
      bucket = filter (\<lambda>p. dayKey format location p = k) points)"
proof (intro conjI ballI allI impI)
  fix p q assume "p \<in> set points" "q \<in> set points"
  then show "(\<exists>k bucket. groupByDay format points location k = Some bucket \<and>
         p \<in> set bucket \<and> q \<in> set bucket) \<longleftrightarrow>
      dayKey format location p = dayKey format location q"
    unfolding groupByDay_Some by (auto simp: filter_empty_conv)
next
  fix k bucket assume "groupByDay format points location k = Some bucket"
  then show "bucket = filter (\<lambda>p. dayKey format location p = k) points"
    by (simp add: groupByDay_Some)
qed

theorem groupByDay_same_bucket_witness:
  "trackPoint 50 20 100 22 \<in> set dayTrack \<and> trackPoint 50 20 110 23 \<in> set dayTrack \<and>
   trackPoint 50 20 105 25 \<in> set dayTrack \<and>
   (\<exists>k bucket. groupByDay hourlyDate dayTrack 0 k = Some bucket \<and>
      trackPoint 50 20 100 22 \<in> set bucket \<and> trackPoint 50 20 110 23 \<in> set bucket) \<and>
   \<not> (\<exists>k bucket. groupByDay hourlyDate dayTrack 0 k = Some bucket \<and>
      trackPoint 50 20 100 22 \<in> set bucket \<and> trackPoint 50 20 105 25 \<in> set bucket) \<and>
   groupByDay hourlyDate dayTrack 0 ''0001-01-01'' =
     Some [trackPoint 50 20 100 22, trackPoint 50 20 110 23] \<and>
   [trackPoint 50 20 100 22, trackPoint 50 20 110 23] =
     filter (\<lambda>p. dayKey hourlyDate 0 p = ''0001-01-01'') dayTrack"
proof -
  have mem: "trackPoint 50 20 100 22 \<in> set dayTrack" "trackPoint 50 20 110 23 \<in> set dayTrack"
    "trackPoint 50 20 105 25 \<in> set dayTrack"
    by (simp_all add: dayTrack_def)
  note inst = groupByDay_same_bucket [of dayTrack hourlyDate 0]
  from inst mem have same:
    "(\<exists>k bucket. groupByDay hourlyDate dayTrack 0 k = Some bucket \<and>
        trackPoint 50 20 100 22 \<in> set bucket \<and> trackPoint 50 20 110 23 \<in> set bucket) \<longleftrightarrow>
     dayKey hourlyDate 0 (trackPoint 50 20 100 22) = dayKey hourlyDate 0 (trackPoint 50 20 110 23)"
    by blast
  from inst mem have other:
    "(\<exists>k bucket. groupByDay hourlyDate dayTrack 0 k = Some bucket \<and>
        trackPoint 50 20 100 22 \<in> set bucket \<and> trackPoint 50 20 105 25 \<in> set bucket) \<longleftrightarrow>
     dayKey hourlyDate 0 (trackPoint 50 20 100 22) = dayKey hourlyDate 0 (trackPoint 50 20 105 25)"
    by blast
  from inst dayTrack_buckets(1) have order:
    "[trackPoint 50 20 100 22, trackPoint 50 20 110 23] =
       filter (\<lambda>p. dayKey hourlyDate 0 p = ''0001-01-01'') dayTrack"
    by blast
  from same have a: "\<exists>k bucket. groupByDay hourlyDate dayTrack 0 k = Some bucket \<and>
        trackPoint 50 20 100 22 \<in> set bucket \<and> trackPoint 50 20 110 23 \<in> set bucket"
    by (simp add: dayTrack_keys)
  from other have b: "\<not> (\<exists>k bucket. groupByDay hourlyDate dayTrack 0 k = Some bucket \<and>
        trackPoint 50 20 100 22 \<in> set bucket \<and> trackPoint 50 20 105 25 \<in> set bucket)"
    by (simp add: dayTrack_keys)
  from mem a b dayTrack_buckets(1) order show ?thesis by (intro conjI)
qed

text \<open>
  Claim C9. For every point sequence the buckets of groupByDay form a partition of the
  input: every input point is in exactly one bucket, the buckets together hold every point
  as often as the input does (none dropped, none duplicated), and the bucket sizes add up
  to the length of the input.
\<close>

theorem groupByDay_partition:
  "(\<forall>p\<in>set points. \<exists>!k. \<exists>bucket. groupByDay format points location k = Some bucket \<and> p \<in> set bucket) \<and>
   finite (dom (groupByDay format points location)) \<and>
   (\<Sum>k\<in>dom (groupByDay format points location). mset (the (groupByDay format points location k))) =
     mset points \<and>
   (\<Sum>k\<in>dom (groupByDay format points location). length (the (groupByDay format points location k))) =
     length points"
proof (intro conjI ballI)
  fix p assume "p \<in> set points"
  then show "\<exists>!k. \<exists>bucket. groupByDay format points location k = Some bucket \<and> p \<in> set bucket"
    unfolding groupByDay_Some by (auto simp: filter_empty_conv)
next
  show fin: "finite (dom (groupByDay format points location))"
    by (simp add: groupByDay_dom)
  have "(\<Sum>k\<in>dom (groupByDay format points location). mset (the (groupByDay format points location k))) =
        (\<Sum>k\<in>dom (groupByDay format points location). mset (filter (\<lambda>p. dayKey format location p = k) points))"
    by (intro sum.cong refl) (simp add: groupByDay_the)
  also have "\<dots> = mset points"
    using fin by (intro sum_mset_filter_keys) (simp_all add: groupByDay_dom)
  finally show "(\<Sum>k\<in>dom (groupByDay format points location). mset (the (groupByDay format points location k))) =
     mset points" .
  have "(\<Sum>k\<in>dom (groupByDay format points location). length (the (groupByDay format points location k))) =
        (\<Sum>k\<in>dom (groupByDay format points location). length (filter (\<lambda>p. dayKey format location p = k) points))"
    by (intro sum.cong refl) (simp add: groupByDay_the)
  also have "\<dots> = length points"
    using fin by (intro sum_length_filter_keys) (simp_all add: groupByDay_dom)
  finally show "(\<Sum>k\<in>dom (groupByDay format points location). length (the (groupByDay format points location k))) =
     length points" .
qed

theorem groupByDay_partition_witness:
  "trackPoint 50 20 105 25 \<in> set dayTrack \<and>
   (\<exists>!k. \<exists>bucket. groupByDay hourlyDate dayTrack 0 k = Some bucket \<and>
      trackPoint 50 20 105 25 \<in> set bucket) \<and>
   (\<Sum>k\<in>dom (groupByDay hourlyDate dayTrack 0). mset (the (groupByDay hourlyDate dayTrack 0 k))) =
     {#trackPoint 50 20 100 22, trackPoint 50 20 110 23, trackPoint 50 20 105 25#} \<and>
   (\<Sum>k\<in>dom (groupByDay hourlyDate dayTrack 0). length (the (groupByDay hourlyDate dayTrack 0 k))) = 3"
proof -
  have mem: "trackPoint 50 20 105 25 \<in> set dayTrack"
    by (simp add: dayTrack_def)
  note inst = groupByDay_partition [of dayTrack hourlyDate 0]
  from inst mem have one: "\<exists>!k. \<exists>bucket. groupByDay hourlyDate dayTrack 0 k = Some bucket \<and>
      trackPoint 50 20 105 25 \<in> set bucket"
    by blast
  from inst have
    "(\<Sum>k\<in>dom (groupByDay hourlyDate dayTrack 0). mset (the (groupByDay hourlyDate dayTrack 0 k))) =
       mset dayTrack"
    "(\<Sum>k\<in>dom (groupByDay hourlyDate dayTrack 0). length (the (groupByDay hourlyDate dayTrack 0 k))) =
       length dayTrack"
    by blast+
  then have
    "(\<Sum>k\<in>dom (groupByDay hourlyDate dayTrack 0). mset (the (groupByDay hourlyDate dayTrack 0 k))) =
     {#trackPoint 50 20 100 22, trackPoint 50 20 110 23, trackPoint 50 20 105 25#}"
    "(\<Sum>k\<in>dom (groupByDay hourlyDate dayTrack 0). length (the (groupByDay hourlyDate dayTrack 0 k))) = 3"
    by (simp_all add: dayTrack_def)
  with mem one show ?thesis by (intro conjI)
qed

section \<open>Symmetry of the great-circle distance\<close>

lemma maxFloat64_nonneg: "0 \<le> maxFloat64"
  by (simp add: maxFloat64_def)

lemma fin64_0 [simp]: "fin64 0 = Some 0"
  by (simp add: fin64_def maxFloat64_nonneg)

lemma fin64_minus: "fin64 (- x) = map_option uminus (fin64 x)"
  by (simp add: fin64_def rnd64_minus Let_def)

lemma subF_swap: "subF b a = map_option uminus (subF a b)"
proof (cases a; cases b)
  fix x y assume "a = Some x" "b = Some y"
  then show ?thesis using fin64_minus [of "x - y"] by (simp add: subF_def)
qed (simp_all add: subF_def)

lemma divF_minus: "divF (map_option uminus a) c = map_option uminus (divF a c)"
  by (cases a) (simp_all add: divF_def fin64_minus [symmetric])

lemma sinF_minus: "goMath m \<Longrightarrow> sinF m (map_option uminus a) = map_option uminus (sinF m a)"
  by (cases a) (simp_all add: sinF_def goMath_def)

lemma mulF_minus_minus: "mulF (map_option uminus a) (map_option uminus b) = mulF a b"
  by (cases a; cases b) (simp_all add: mulF_def)

lemma mulF_minus_right: "mulF a (map_option uminus b) = map_option uminus (mulF a b)"
  by (cases a; cases b) (simp_all add: mulF_def fin64_minus [symmetric])

lemma mulF_minus_left: "mulF (map_option uminus a) b = map_option uminus (mulF a b)"
  by (cases a; cases b) (simp_all add: mulF_def fin64_minus [symmetric])

lemma mulF_commute: "mulF a b = mulF b a"
  by (cases a; cases b) (simp_all add: mulF_def mult.commute)

lemma sin_half_swap:
  "goMath m \<Longrightarrow>
   sinF m (divF (subF y x) 2) = map_option uminus (sinF m (divF (subF x y) 2))"
  by (subst subF_swap [of y x]) (simp add: divF_minus sinF_minus)

lemma haversine_square_sym:
  "goMath m \<Longrightarrow>
   mulF (sinF m (divF (subF y x) 2)) (sinF m (divF (subF y x) 2)) =
   mulF (sinF m (divF (subF x y) 2)) (sinF m (divF (subF x y) 2))"
  by (simp only: sin_half_swap [of m y x] mulF_minus_minus)

lemma haversine_product_sym:
  "goMath m \<Longrightarrow>
   mulF (mulF k (sinF m (divF (subF y x) 2))) (sinF m (divF (subF y x) 2)) =
   mulF (mulF k (sinF m (divF (subF x y) 2))) (sinF m (divF (subF x y) 2))"
  by (simp add: sin_half_swap [of m y x] mulF_minus_right mulF_minus_left option.map_comp
      comp_def option.map_ident)

lemma haversineDistance2D_sym:
  assumes "goMath m"
  shows "haversineDistance2D m a b = haversineDistance2D m b a"
  unfolding haversineDistance2D_def Let_def
  by (simp only: haversine_square_sym [OF assms, of "toRadians (Latitude b)" "toRadians (Latitude a)"]
        haversine_product_sym [OF assms, of _ "toRadians (Longitude b)" "toRadians (Longitude a)"]
        mulF_commute [of "cosF m (toRadians (Latitude a))" "cosF m (toRadians (Latitude b))"])

lemma rnd64_1 [simp]: "rnd64 1 = 1"
  using rnd64_of_int [of 1] by simp

lemma rnd64_abs_le:
  assumes "\<bar>x\<bar> \<le> of_int n" "\<bar>n\<bar> \<le> 2 ^ 53"
  shows "\<bar>rnd64 x\<bar> \<le> of_int n"
proof -
  have "rnd64 x \<le> rnd64 (of_int n)" using assms(1) by (intro rnd64_mono) linarith
  moreover have "rnd64 (- of_int n) \<le> rnd64 x" using assms(1) by (intro rnd64_mono) linarith
  moreover have "rnd64 (of_int n) = of_int n" using assms(2) by (rule rnd64_of_int)
  ultimately show ?thesis by (simp add: rnd64_minus abs_le_iff)
qed

lemma fin64_bounded:
  assumes "\<bar>x\<bar> \<le> of_int n" "\<bar>n\<bar> \<le> 2 ^ 53"
  shows "\<exists>r. fin64 x = Some r \<and> \<bar>r\<bar> \<le> of_int n"
proof -
  have r: "\<bar>rnd64 x\<bar> \<le> of_int n" using assms by (rule rnd64_abs_le)
  have "real_of_int \<bar>n\<bar> \<le> real_of_int (2 ^ 53)" using assms(2) by (simp only: of_int_le_iff)
  then have "real_of_int n \<le> 2 ^ 53" by simp
  also have "(2::real) ^ 53 \<le> maxFloat64" by (simp add: maxFloat64_def)
  finally have "\<bar>rnd64 x\<bar> \<le> maxFloat64" using r by linarith
  with r show ?thesis by (simp add: fin64_def)
qed

lemma goMath_roundedMath: "goMath roundedMath"
proof -
  have "\<bar>rnd64 (cos x)\<bar> \<le> 2" for x
    using rnd64_abs_le [of "cos x" 1] by (simp add: abs_le_iff)
  then show ?thesis
    by (simp add: goMath_def roundedMath_def rnd64_minus atan2Real_def)
qed

lemma toRadians_valid:
  assumes "\<bar>deg\<bar> \<le> 180"
  shows "\<exists>r. toRadians deg = Some r"
proof -
  have "\<bar>deg * pi64\<bar> \<le> 180 * 4" 
    unfolding abs_mult using assms by (intro mult_mono) (simp_all add: pi64_def)
  then have "\<bar>deg * pi64\<bar> \<le> real_of_int 720" by simp
  from fin64_bounded [OF this] obtain r where r: "fin64 (deg * pi64) = Some r" "\<bar>r\<bar> \<le> 720"
    by auto
  then have "\<bar>r / 180\<bar> \<le> real_of_int 4" by simp
  from fin64_bounded [OF this] obtain q where "fin64 (r / 180) = Some q" by auto
  with r show ?thesis by (simp add: toRadians_def mulF_def divF_def)
qed

lemma haversineDistance2D_same:
  assumes m: "goMath m" and la: "toRadians (Latitude p) = Some la"
    and lo: "toRadians (Longitude p) = Some lo"
  shows "haversineDistance2D m p p = Some 0"
proof -
  have "Sin m (- 0) = - Sin m 0" using m unfolding goMath_def by blast
  then have sin0: "Sin m 0 = 0" by simp
  have sq: "Sqrt m 0 = 0" "Sqrt m 1 = 1" and at: "Atan2 m 0 1 = 0"
    using m by (simp_all add: goMath_def)
  have "\<bar>Cos m la\<bar> \<le> 2" using m by (simp add: goMath_def)
  then have "\<bar>Cos m la * Cos m la\<bar> \<le> real_of_int 4"
    unfolding abs_mult using mult_mono [of "\<bar>Cos m la\<bar>" 2 "\<bar>Cos m la\<bar>" 2] by simp
  from fin64_bounded [OF this] obtain k where k: "fin64 (Cos m la * Cos m la) = Some k" by auto
  have one: "fin64 1 = Some 1" by (simp add: fin64_def maxFloat64_def)
  show ?thesis
    by (simp add: haversineDistance2D_def Let_def la lo subF_def divF_def sinF_def sin0 mulF_def
        cosF_def k addF_def sqrtF_def sq one atan2F_def at)
qed

lemma overflow_radians: "toRadians (2 ^ 1023) = None"
proof -
  have "rnd64 (2 ^ 1023 * pi64) = 2 ^ 1023 * pi64"
    unfolding pi64_def
    by (subst rnd64_eval_int [where n = 972]) (simp_all add: roundHalfEven_def)
  moreover have "maxFloat64 < 2 ^ 1023 * pi64"
    by (simp add: maxFloat64_def pi64_def)
  ultimately have "fin64 (2 ^ 1023 * pi64) = None"
    by (simp add: fin64_def Let_def)
  then show ?thesis by (simp add: toRadians_def mulF_def divF_def)
qed

lemma nan_strict:
  "subF None b = None" "subF a None = None" "mulF None b = None" "mulF a None = None"
  "addF None b = None" "addF a None = None" "divF None c = None" "sinF m None = None"
  "cosF m None = None" "sqrtF m None = None" "atan2F m None b = None" "atan2F m a None = None"
  by (simp_all add: subF_def mulF_def addF_def divF_def sinF_def cosF_def sqrtF_def atan2F_def
      split: option.splits)

lemma haversineDistance2D_nan:
  "toRadians (Latitude p) = None \<Longrightarrow> haversineDistance2D m p q = None"
  by (simp add: haversineDistance2D_def Let_def nan_strict)

lemma haversine_overflow:
  "haversineDistance2D roundedMath (trackPoint (2 ^ 1023) 0 0 0) (trackPoint (2 ^ 1023) 0 0 0) = None"
proof (rule haversineDistance2D_nan)
  show "toRadians (Latitude (trackPoint (2 ^ 1023) 0 0 0)) = None"
    using overflow_radians by (simp add: trackPoint_def)
qed

text \<open>
  Claim C8, with NaN. For all points a and b, haversineDistance2D a b and
  haversineDistance2D b a are the same: both NaN, or the same number, and then equal under
  Go's comparison. For every point p whose latitude and longitude convert to radians
  without overflow, which every valid coordinate does, haversineDistance2D p p is 0.
\<close>

theorem haversineDistance2D_symmetric_zero:
  "goMath m \<longrightarrow>
     haversineDistance2D m a b = haversineDistance2D m b a \<and>
     (haversineDistance2D m a b \<noteq> None \<longrightarrow>
        floatEq (haversineDistance2D m a b) (haversineDistance2D m b a)) \<and>
     (toRadians (Latitude p) \<noteq> None \<and> toRadians (Longitude p) \<noteq> None \<longrightarrow>
        haversineDistance2D m p p = Some 0 \<and> floatEq (haversineDistance2D m p p) (Some 0))"
proof (intro impI conjI)
  assume m: "goMath m"
  show s: "haversineDistance2D m a b = haversineDistance2D m b a"
    using m by (rule haversineDistance2D_sym)
  {
    assume "haversineDistance2D m a b \<noteq> None"
    then show "floatEq (haversineDistance2D m a b) (haversineDistance2D m b a)"
      unfolding s [symmetric] by (auto simp: floatEq_def)
  }
  {
    assume "toRadians (Latitude p) \<noteq> None \<and> toRadians (Longitude p) \<noteq> None"
    then obtain la lo where "toRadians (Latitude p) = Some la" "toRadians (Longitude p) = Some lo"
      by auto
    with m show z: "haversineDistance2D m p p = Some 0"
      by (rule haversineDistance2D_same)
    then show "floatEq (haversineDistance2D m p p) (Some 0)"
      by (simp add: floatEq_def)
  }
qed

theorem haversineDistance2D_symmetric_zero_witness:
  "goMath roundedMath \<and>
   haversineDistance2D roundedMath (trackPoint 50 20 0 0) (trackPoint 51 22 3 60) =
     haversineDistance2D roundedMath (trackPoint 51 22 3 60) (trackPoint 50 20 0 0) \<and>
   toRadians (Latitude (trackPoint 50 20 0 0)) \<noteq> None \<and>
   toRadians (Longitude (trackPoint 50 20 0 0)) \<noteq> None \<and>
   haversineDistance2D roundedMath (trackPoint 50 20 0 0) (trackPoint 50 20 0 0) = Some 0 \<and>
   floatEq (haversineDistance2D roundedMath (trackPoint 50 20 0 0) (trackPoint 50 20 0 0)) (Some 0)"
proof -
  have r: "toRadians (Latitude (trackPoint 50 20 0 0)) \<noteq> None"
    "toRadians (Longitude (trackPoint 50 20 0 0)) \<noteq> None"
    using toRadians_valid [of 50] toRadians_valid [of 20] by (auto simp: trackPoint_def)
  from haversineDistance2D_symmetric_zero
    [of roundedMath "trackPoint 50 20 0 0" "trackPoint 51 22 3 60" "trackPoint 50 20 0 0"]
    goMath_roundedMath r
  show ?thesis by blast
qed

text \<open>
  The claim as stated fails: for the point p at latitude \<open>2 ^ 1023\<close> the conversion to
  radians overflows, haversineDistance2D p p is NaN, and NaN is equal neither to 0 nor to
  itself.
\<close>

theorem haversineDistance2D_nan_counterexample:
  "haversineDistance2D roundedMath (trackPoint (2 ^ 1023) 0 0 0) (trackPoint (2 ^ 1023) 0 0 0) =
     None \<and>
   \<not> floatEq
       (haversineDistance2D roundedMath (trackPoint (2 ^ 1023) 0 0 0) (trackPoint (2 ^ 1023) 0 0 0))
       (Some 0) \<and>
   \<not> floatEq
       (haversineDistance2D roundedMath (trackPoint (2 ^ 1023) 0 0 0) (trackPoint (2 ^ 1023) 0 0 0))
       (haversineDistance2D roundedMath (trackPoint (2 ^ 1023) 0 0 0) (trackPoint (2 ^ 1023) 0 0 0))"
  unfolding haversine_overflow by (simp add: floatEq_def)

end
